theory Spec2Isabelle
  imports Main "HOL-Library.Multiset"
begin

section \<open>Python values and exceptions\<close>

text \<open>
  The persistent memory of \<^verbatim>\<open>app.py\<close> is three SQLite tables reached through the
  functions \<^verbatim>\<open>save_message\<close>, \<^verbatim>\<open>save_memory\<close>, \<^verbatim>\<open>save_summary\<close>, their readers, and
  the snapshot pair \<^verbatim>\<open>export_memory_to_json\<close> / \<^verbatim>\<open>import_memory_from_json\<close>.

  A Python \<^verbatim>\<open>str\<close> is modelled as a \<^typ>\<open>string\<close> whose characters stand for the code
  points below 256. Values decoded from JSON are \<open>pyval\<close>. IEEE doubles are kept as an
  abstract type: the model never computes with them, it only carries them around.
\<close>

typedecl float64

datatype pyval =
    PNone
  | PBool bool
  | PInt int
  | PFloat float64
  | PStr string
  | PList "pyval list"
  | PDict "(string \<times> pyval) list"

datatype error =
    TypeError
  | KeyError
  | AttributeError
  | IndexError
  | OverflowError
  | ProgrammingError
  | IntegrityError
  | JSONDecodeError
  | ExternalError string

text \<open>\<^verbatim>\<open>m['phone']\<close>: only a dict can be subscripted with a string.\<close>

fun subscript :: "pyval \<Rightarrow> string \<Rightarrow> error + pyval" where
  "subscript (PDict kvs) k = (case map_of kvs k of None \<Rightarrow> Inl KeyError | Some v \<Rightarrow> Inr v)"
| "subscript _ k = Inl TypeError"

text \<open>\<^verbatim>\<open>d.get(key, default)\<close>: every JSON value other than a dict has no attribute \<^verbatim>\<open>get\<close>.\<close>

fun dict_get :: "pyval \<Rightarrow> string \<Rightarrow> pyval \<Rightarrow> error + pyval" where
  "dict_get (PDict kvs) k d = (case map_of kvs k of None \<Rightarrow> Inr d | Some v \<Rightarrow> Inr v)"
| "dict_get _ k d = Inl AttributeError"

text \<open>\<^verbatim>\<open>for x in v\<close>: a list yields its elements, a string its characters, a dict its keys.\<close>

fun py_iter :: "pyval \<Rightarrow> error + pyval list" where
  "py_iter (PList xs) = Inr xs"
| "py_iter (PStr s) = Inr (map (\<lambda>c. PStr [c]) s)"
| "py_iter (PDict kvs) = Inr (map (\<lambda>kv. PStr (fst kv)) kvs)"
| "py_iter _ = Inl TypeError"

fun py_len :: "pyval \<Rightarrow> error + nat" where
  "py_len (PList xs) = Inr (length xs)"
| "py_len (PStr s) = Inr (length s)"
| "py_len (PDict kvs) = Inr (length kvs)"
| "py_len _ = Inl TypeError"

section \<open>SQLite cells: binding, column affinity\<close>

datatype sqlval = SqlNull | SqlInteger int | SqlReal float64 | SqlText string

text \<open>
  Conversions of SQLite and of Python that involve floating point or the text form of
  a number are not code of this repository; they are parameters of the model.
\<close>

record conversions =
  real_text :: "float64 \<Rightarrow> string"
  real_integer :: "float64 \<Rightarrow> int option"
  text_numeric :: "string \<Rightarrow> sqlval"
  float_truthy :: "float64 \<Rightarrow> bool"
  str_other :: "pyval \<Rightarrow> string"

text \<open>
  The \<^verbatim>\<open>sqlite3\<close> module binds \<^verbatim>\<open>None\<close>, \<^verbatim>\<open>int\<close> (and \<^verbatim>\<open>bool\<close>), \<^verbatim>\<open>float\<close> and \<^verbatim>\<open>str\<close>;
  an integer outside 64 bits raises \<^verbatim>\<open>OverflowError\<close>, a list or dict \<^verbatim>\<open>ProgrammingError\<close>.
\<close>

fun bind_param :: "pyval \<Rightarrow> error + sqlval" where
  "bind_param PNone = Inr SqlNull"
| "bind_param (PBool b) = Inr (SqlInteger (if b then 1 else 0))"
| "bind_param (PInt i) =
     (if - (2 ^ 63) \<le> i \<and> i < 2 ^ 63 then Inr (SqlInteger i) else Inl OverflowError)"
| "bind_param (PFloat r) = Inr (SqlReal r)"
| "bind_param (PStr s) = Inr (SqlText s)"
| "bind_param (PList xs) = Inl ProgrammingError"
| "bind_param (PDict kvs) = Inl ProgrammingError"

text \<open>The four parameters of a statement are bound left to right.\<close>

definition bind4 ::
  "pyval \<Rightarrow> pyval \<Rightarrow> pyval \<Rightarrow> pyval \<Rightarrow> error + (sqlval \<times> sqlval \<times> sqlval \<times> sqlval)" where
  "bind4 a b c d =
     (case bind_param a of Inl e \<Rightarrow> Inl e | Inr a' \<Rightarrow>
     (case bind_param b of Inl e \<Rightarrow> Inl e | Inr b' \<Rightarrow>
     (case bind_param c of Inl e \<Rightarrow> Inl e | Inr c' \<Rightarrow>
     (case bind_param d of Inl e \<Rightarrow> Inl e | Inr d' \<Rightarrow> Inr (a', b', c', d')))))"

function dec_nat :: "nat \<Rightarrow> string" where
  "dec_nat n =
     (if n < 10 then [char_of (48 + n)] else dec_nat (n div 10) @ [char_of (48 + n mod 10)])"
  by pat_completeness auto
termination
  by (relation "measure (\<lambda>n. n)") auto

definition dec_int :: "int \<Rightarrow> string" where
  "dec_int i = (if i < 0 then CHR ''-'' # dec_nat (nat (- i)) else dec_nat (nat i))"

text \<open>A TEXT column stores NULL or text; a number is stored in its text form.\<close>

fun text_affinity :: "conversions \<Rightarrow> sqlval \<Rightarrow> string option" where
  "text_affinity cv SqlNull = None"
| "text_affinity cv (SqlInteger i) = Some (dec_int i)"
| "text_affinity cv (SqlReal r) = Some (real_text cv r)"
| "text_affinity cv (SqlText s) = Some s"

text \<open>
  An INTEGER column keeps NULL and integers, turns a real into an integer when that is
  exact, and turns text into a number when it reads as one.
\<close>

fun integer_affinity :: "conversions \<Rightarrow> sqlval \<Rightarrow> sqlval" where
  "integer_affinity cv SqlNull = SqlNull"
| "integer_affinity cv (SqlInteger i) = SqlInteger i"
| "integer_affinity cv (SqlReal r) =
     (case real_integer cv r of None \<Rightarrow> SqlReal r | Some i \<Rightarrow> SqlInteger i)"
| "integer_affinity cv (SqlText s) = text_numeric cv s"

text \<open>What a \<^verbatim>\<open>SELECT\<close> hands back to Python for a cell.\<close>

fun py_of_sql :: "sqlval \<Rightarrow> pyval" where
  "py_of_sql SqlNull = PNone"
| "py_of_sql (SqlInteger i) = PInt i"
| "py_of_sql (SqlReal r) = PFloat r"
| "py_of_sql (SqlText s) = PStr s"

definition py_of_text :: "string option \<Rightarrow> pyval" where
  "py_of_text c = (case c of None \<Rightarrow> PNone | Some s \<Rightarrow> PStr s)"

section \<open>The three tables\<close>

text \<open>
  \<^verbatim>\<open>init_db\<close> creates \<^verbatim>\<open>messages\<close>, \<^verbatim>\<open>memories\<close> and \<^verbatim>\<open>summaries\<close>. Every table has an
  \<^verbatim>\<open>INTEGER PRIMARY KEY AUTOINCREMENT\<close> id; the TEXT columns are \<^verbatim>\<open>NOT NULL\<close> except
  \<^verbatim>\<open>category\<close>; \<^verbatim>\<open>message_count\<close> is a nullable INTEGER column; \<^verbatim>\<open>memories\<close> carries
  \<^verbatim>\<open>UNIQUE(phone, fact)\<close>.
\<close>

record message_row =
  msg_id :: nat
  msg_phone :: string
  msg_role :: string
  msg_content :: string
  msg_timestamp :: string

record memory_row =
  mem_id :: nat
  mem_phone :: string
  mem_fact :: string
  mem_category :: "string option"
  mem_timestamp :: string

record summary_row =
  sum_id :: nat
  sum_phone :: string
  sum_summary :: string
  sum_message_count :: sqlval
  sum_timestamp :: string

text \<open>
  A table is the list of its rows in the order they were inserted. The \<open>seq_\<close> fields
  are the \<^verbatim>\<open>sqlite_sequence\<close> counters that AUTOINCREMENT draws ids from.
\<close>

record database =
  messages :: "message_row list"
  memories :: "memory_row list"
  summaries :: "summary_row list"
  seq_messages :: nat
  seq_memories :: nat
  seq_summaries :: nat

definition init_db :: database where
  "init_db = \<lparr>messages = [], memories = [], summaries = [],
              seq_messages = 0, seq_memories = 0, seq_summaries = 0\<rparr>"

text \<open>
  \<^verbatim>\<open>INSERT INTO messages (phone, role, content, timestamp) VALUES (?, ?, ?, ?)\<close>.
  A binding error or a NOT NULL violation aborts the statement: no row, no id used.
\<close>

definition insert_message ::
  "conversions \<Rightarrow> pyval \<Rightarrow> pyval \<Rightarrow> pyval \<Rightarrow> pyval \<Rightarrow> database \<Rightarrow> error + database" where
  "insert_message cv phone role content ts db =
     (case bind4 phone role content ts of
        Inl e \<Rightarrow> Inl e
      | Inr (p, r, c, t) \<Rightarrow>
          (case (text_affinity cv p, text_affinity cv r, text_affinity cv c, text_affinity cv t) of
             (Some p', Some r', Some c', Some t') \<Rightarrow>
               Inr (db\<lparr>messages := messages db @
                          [\<lparr>msg_id = Suc (seq_messages db), msg_phone = p', msg_role = r',
                            msg_content = c', msg_timestamp = t'\<rparr>],
                        seq_messages := Suc (seq_messages db)\<rparr>)
           | _ \<Rightarrow> Inl IntegrityError))"

text \<open>
  \<^verbatim>\<open>INSERT OR IGNORE INTO memories (phone, fact, category, timestamp) VALUES (?, ?, ?, ?)\<close>.
  Only a binding error raises. A NOT NULL violation or an existing (phone, fact) pair
  skips the row silently; the skipped row has already drawn its id.
\<close>

definition insert_memory ::
  "conversions \<Rightarrow> pyval \<Rightarrow> pyval \<Rightarrow> pyval \<Rightarrow> pyval \<Rightarrow> database \<Rightarrow> error + database" where
  "insert_memory cv phone fct category ts db =
     (case bind4 phone fct category ts of
        Inl e \<Rightarrow> Inl e
      | Inr (p, f, c, t) \<Rightarrow>
          (case (text_affinity cv p, text_affinity cv f, text_affinity cv t) of
             (Some p', Some f', Some t') \<Rightarrow>
               if \<exists>r \<in> set (memories db). mem_phone r = p' \<and> mem_fact r = f'
               then Inr (db\<lparr>seq_memories := Suc (seq_memories db)\<rparr>)
               else Inr (db\<lparr>memories := memories db @
                               [\<lparr>mem_id = Suc (seq_memories db), mem_phone = p', mem_fact = f',
                                 mem_category = text_affinity cv c, mem_timestamp = t'\<rparr>],
                             seq_memories := Suc (seq_memories db)\<rparr>)
           | _ \<Rightarrow> Inr (db\<lparr>seq_memories := Suc (seq_memories db)\<rparr>)))"

text \<open>
  \<^verbatim>\<open>INSERT INTO summaries (phone, summary, message_count, timestamp) VALUES (?, ?, ?, ?)\<close>.
\<close>

definition insert_summary ::
  "conversions \<Rightarrow> pyval \<Rightarrow> pyval \<Rightarrow> pyval \<Rightarrow> pyval \<Rightarrow> database \<Rightarrow> error + database" where
  "insert_summary cv phone summary message_count ts db =
     (case bind4 phone summary message_count ts of
        Inl e \<Rightarrow> Inl e
      | Inr (p, s, n, t) \<Rightarrow>
          (case (text_affinity cv p, text_affinity cv s, text_affinity cv t) of
             (Some p', Some s', Some t') \<Rightarrow>
               Inr (db\<lparr>summaries := summaries db @
                          [\<lparr>sum_id = Suc (seq_summaries db), sum_phone = p', sum_summary = s',
                            sum_message_count = integer_affinity cv n, sum_timestamp = t'\<rparr>],
                        seq_summaries := Suc (seq_summaries db)\<rparr>)
           | _ \<Rightarrow> Inl IntegrityError))"

section \<open>Storage functions\<close>

text \<open>
  Each function opens its own connection and commits before closing it, so a call either
  commits its one statement or raises with the database as it was. The extra argument
  \<open>ts\<close> is the value of \<^verbatim>\<open>datetime.now(timezone.utc).isoformat()\<close> at the call.
  The result pairs the outcome with the database after the call.
\<close>

definition save_message ::
  "conversions \<Rightarrow> string \<Rightarrow> pyval \<Rightarrow> pyval \<Rightarrow> pyval \<Rightarrow> database \<Rightarrow> (error + unit) \<times> database" where
  "save_message cv ts phone role content db =
     (case insert_message cv phone role content (PStr ts) db of
        Inl e \<Rightarrow> (Inl e, db)
      | Inr db' \<Rightarrow> (Inr (), db'))"

text \<open>Rows as the readers return them: dicts with three fixed keys.\<close>

record history_entry =
  h_role :: string
  h_content :: string
  h_timestamp :: string

definition history_of :: "message_row \<Rightarrow> history_entry" where
  "history_of r =
     \<lparr>h_role = msg_role r, h_content = msg_content r, h_timestamp = msg_timestamp r\<rparr>"

text \<open>\<^verbatim>\<open>WHERE phone = ?\<close> compares the TEXT column with the bound string.\<close>

definition messages_of :: "string \<Rightarrow> database \<Rightarrow> message_row list" where
  "messages_of phone db = filter (\<lambda>r. msg_phone r = phone) (messages db)"

text \<open>\<^verbatim>\<open>LIMIT ?\<close> with a negative bound puts no limit on the rows.\<close>

definition sql_limit :: "int \<Rightarrow> 'a list \<Rightarrow> 'a list" where
  "sql_limit k rows = (if k < 0 then rows else take (nat k) rows)"

text \<open>
  \<^verbatim>\<open>get_conversation_history\<close>: the limit is bound as a parameter of the statement, so
  an integer outside 64 bits raises \<^verbatim>\<open>OverflowError\<close>; then
  \<^verbatim>\<open>ORDER BY id DESC LIMIT ?\<close> and \<^verbatim>\<open>rows.reverse()\<close>.
\<close>

definition get_conversation_history ::
  "string \<Rightarrow> int \<Rightarrow> database \<Rightarrow> error + history_entry list" where
  "get_conversation_history phone limit db =
     (case bind_param (PInt limit) of
        Inl e \<Rightarrow> Inl e
      | Inr bound \<Rightarrow>
          Inr (map history_of
                 (rev (sql_limit limit
                         (sort_key (\<lambda>r. - int (msg_id r)) (messages_of phone db))))))"

definition get_all_history :: "string \<Rightarrow> database \<Rightarrow> history_entry list" where
  "get_all_history phone db = map history_of (sort_key msg_id (messages_of phone db))"

text \<open>\<^verbatim>\<open>save_memory\<close> wraps the statement in \<^verbatim>\<open>try\<close> / \<^verbatim>\<open>except Exception\<close>: it never raises.\<close>

definition save_memory ::
  "conversions \<Rightarrow> string \<Rightarrow> pyval \<Rightarrow> pyval \<Rightarrow> pyval \<Rightarrow> database \<Rightarrow> (error + unit) \<times> database" where
  "save_memory cv ts phone fct category db =
     (case insert_memory cv phone fct category (PStr ts) db of
        Inl e \<Rightarrow> (Inr (), db)
      | Inr db' \<Rightarrow> (Inr (), db'))"

record memory_entry =
  m_fact :: string
  m_category :: "string option"
  m_timestamp :: string

definition get_memories :: "string \<Rightarrow> database \<Rightarrow> memory_entry list" where
  "get_memories phone db =
     map (\<lambda>r. \<lparr>m_fact = mem_fact r, m_category = mem_category r, m_timestamp = mem_timestamp r\<rparr>)
       (sort_key mem_id (filter (\<lambda>r. mem_phone r = phone) (memories db)))"

definition save_summary ::
  "conversions \<Rightarrow> string \<Rightarrow> pyval \<Rightarrow> pyval \<Rightarrow> pyval \<Rightarrow> database \<Rightarrow> (error + unit) \<times> database" where
  "save_summary cv ts phone summary message_count db =
     (case insert_summary cv phone summary message_count (PStr ts) db of
        Inl e \<Rightarrow> (Inl e, db)
      | Inr db' \<Rightarrow> (Inr (), db'))"

record summary_entry =
  s_summary :: string
  s_message_count :: sqlval
  s_timestamp :: string

definition get_summaries :: "string \<Rightarrow> database \<Rightarrow> summary_entry list" where
  "get_summaries phone db =
     map (\<lambda>r. \<lparr>s_summary = sum_summary r, s_message_count = sum_message_count r,
                s_timestamp = sum_timestamp r\<rparr>)
       (sort_key sum_id (filter (\<lambda>r. sum_phone r = phone) (summaries db)))"

definition get_message_count :: "string \<Rightarrow> database \<Rightarrow> nat" where
  "get_message_count phone db = length (messages_of phone db)"

section \<open>Schema invariant\<close>

text \<open>
  What the schema guarantees of every table: ids are handed out in increasing order and
  never exceed the sequence counter (\<^verbatim>\<open>PRIMARY KEY AUTOINCREMENT\<close>), and no two rows of
  \<^verbatim>\<open>memories\<close> share (phone, fact) (\<^verbatim>\<open>UNIQUE(phone, fact)\<close>).
\<close>

definition ids_ok :: "nat list \<Rightarrow> nat \<Rightarrow> bool" where
  "ids_ok ids seq = (sorted_wrt (<) ids \<and> (\<forall>i \<in> set ids. i \<le> seq))"

definition db_invariant :: "database \<Rightarrow> bool" where
  "db_invariant db =
     (ids_ok (map msg_id (messages db)) (seq_messages db) \<and>
      ids_ok (map mem_id (memories db)) (seq_memories db) \<and>
      ids_ok (map sum_id (summaries db)) (seq_summaries db) \<and>
      distinct (map (\<lambda>r. (mem_phone r, mem_fact r)) (memories db)))"

text \<open>The stored Fact rows of one (identity, fact) pair.\<close>

definition fact_rows :: "string \<Rightarrow> string \<Rightarrow> database \<Rightarrow> memory_row list" where
  "fact_rows phone fct db =
     filter (\<lambda>r. mem_phone r = phone \<and> mem_fact r = fct) (memories db)"

text \<open>One concrete choice of the conversions, for evaluating examples.\<close>

definition plain_conversions :: conversions where
  "plain_conversions =
     \<lparr>real_text = (\<lambda>r. ''0.0''), real_integer = (\<lambda>r. None),
      text_numeric = (\<lambda>s. SqlText s), float_truthy = (\<lambda>r. True),
      str_other = (\<lambda>v. ''?'')\<rparr>"

text \<open>
  A run of \<^verbatim>\<open>save_message\<close> calls for one phone number, one call per entry
  (timestamp read at the call, role, content), in the order of the list.
\<close>

fun save_messages ::
  "conversions \<Rightarrow> string \<Rightarrow> (string \<times> string \<times> string) list \<Rightarrow> database \<Rightarrow> database" where
  "save_messages cv phone [] db = db"
| "save_messages cv phone ((ts, role, content) # turns) db =
     save_messages cv phone turns (snd (save_message cv ts (PStr phone) (PStr role) (PStr content) db))"

text \<open>
  A run of \<^verbatim>\<open>save_message\<close> calls for any phone numbers, one call per entry (phone,
  timestamp read at the call, role, content), in the order of the list.
\<close>

fun save_calls ::
  "conversions \<Rightarrow> (string \<times> string \<times> string \<times> string) list \<Rightarrow> database \<Rightarrow> database" where
  "save_calls cv [] db = db"
| "save_calls cv ((phone, ts, role, content) # calls) db =
     save_calls cv calls (snd (save_message cv ts (PStr phone) (PStr role) (PStr content) db))"

text \<open>The history entry a call of \<^verbatim>\<open>save_message\<close> is read back as.\<close>

definition entry_of_call :: "string \<times> string \<times> string \<times> string \<Rightarrow> history_entry" where
  "entry_of_call c =
     (case c of (phone, ts, role, content) \<Rightarrow>
        \<lparr>h_role = role, h_content = content, h_timestamp = ts\<rparr>)"

section \<open>String methods\<close>

text \<open>\<^verbatim>\<open>str.isspace\<close> on one character, for code points below 256.\<close>

definition is_space :: "char \<Rightarrow> bool" where
  "is_space c =
     (let n = (of_char c :: nat)
      in (9 \<le> n \<and> n \<le> 13) \<or> (28 \<le> n \<and> n \<le> 32) \<or> n = 133 \<or> n = 160)"

text \<open>\<^verbatim>\<open>str.strip()\<close>: whitespace is removed at both ends.\<close>

definition py_strip :: "string \<Rightarrow> string" where
  "py_strip s = rev (dropWhile is_space (rev (dropWhile is_space s)))"

text \<open>
  \<^verbatim>\<open>str.lower()\<close>, for code points below 256: the letters A to Z and the accented
  capitals 192 to 222 (but not the multiplication sign 215) move up by 32.
\<close>

definition lower_char :: "char \<Rightarrow> char" where
  "lower_char c =
     (let n = (of_char c :: nat)
      in if (65 \<le> n \<and> n \<le> 90) \<or> (192 \<le> n \<and> n \<le> 222 \<and> n \<noteq> 215)
         then char_of (n + 32) else c)"

definition py_lower :: "string \<Rightarrow> string" where
  "py_lower s = map lower_char s"

text \<open>\<^verbatim>\<open>s.startswith(prefix)\<close>.\<close>

fun startswith :: "string \<Rightarrow> string \<Rightarrow> bool" where
  "startswith s [] = True"
| "startswith [] (p # ps) = False"
| "startswith (c # cs) (p # ps) = (c = p \<and> startswith cs ps)"

text \<open>\<^verbatim>\<open>kw in s\<close>: \<open>kw\<close> occurs in \<open>s\<close> as a contiguous piece.\<close>

fun py_in :: "string \<Rightarrow> string \<Rightarrow> bool" where
  "py_in kw [] = (kw = [])"
| "py_in kw (c # cs) = (startswith (c # cs) kw \<or> py_in kw cs)"

section \<open>Keyword fact extraction\<close>

text \<open>The table \<^verbatim>\<open>fact_patterns\<close> of \<^verbatim>\<open>extract_memories_from_message\<close>, in source order.\<close>

definition fact_patterns :: "(string \<times> string list) list" where
  "fact_patterns =
     [(''preference'', [''i like'', ''i love'', ''i prefer'', ''i hate'', ''i enjoy'', ''my favorite'']),
      (''personal'', [''my name is'', ''i live in'', ''i work at'', ''my job is'', ''i am a'', ''i'm a'']),
      (''goal'', [''i want to'', ''i need to'', ''my goal is'', ''i plan to'', ''i'm trying to'', ''i aim to'']),
      (''business'', [''my company'', ''my business'', ''my startup'', ''my product'', ''my client'',
                      ''revenue'', ''profit'', ''growth'']),
      (''reminder'', [''remind me'', ''don't forget'', ''remember that'', ''keep in mind''])]"

text \<open>The inner loop \<^verbatim>\<open>for kw in keywords\<close>: does some keyword occur in the speech?\<close>

fun scan_keywords :: "string list \<Rightarrow> string \<Rightarrow> bool" where
  "scan_keywords [] speech_lower = False"
| "scan_keywords (kw # kws) speech_lower =
     (if py_in kw speech_lower then True else scan_keywords kws speech_lower)"

text \<open>
  The outer loop \<^verbatim>\<open>for category, keywords in fact_patterns\<close>: the category at which the
  function saves and returns, or \<open>None\<close> when both loops run to their end.
\<close>

fun scan_patterns :: "(string \<times> string list) list \<Rightarrow> string \<Rightarrow> string option" where
  "scan_patterns [] speech_lower = None"
| "scan_patterns ((category, keywords) # rest) speech_lower =
     (if scan_keywords keywords speech_lower then Some category
      else scan_patterns rest speech_lower)"

definition extract_memories_from_message ::
  "conversions \<Rightarrow> string \<Rightarrow> string \<Rightarrow> string \<Rightarrow> database \<Rightarrow> (error + unit) \<times> database" where
  "extract_memories_from_message cv ts phone user_speech db =
     (case scan_patterns fact_patterns (py_lower user_speech) of
        None \<Rightarrow> (Inr (), db)
      | Some category \<Rightarrow>
          save_memory cv ts (PStr phone) (PStr (py_strip user_speech)) (PStr category) db)"

text \<open>
  The spec's wording of the scan: the first category of the table, in table order, one of
  whose phrases occurs in the text as a contiguous piece.
\<close>

definition first_matching_category :: "(string \<times> string list) list \<Rightarrow> string \<Rightarrow> string option" where
  "first_matching_category table txt =
     map_option fst
       (find (\<lambda>(cat, phrases). \<exists>ph \<in> set phrases. \<exists>pre post. txt = pre @ ph @ post) table)"

section \<open>Snapshot export and import\<close>

text \<open>
  \<^verbatim>\<open>export_memory_to_json\<close>: every table in id order, each row as a dict, plus the time
  of the export.
\<close>

definition export_message :: "message_row \<Rightarrow> pyval" where
  "export_message r =
     PDict [(''phone'', PStr (msg_phone r)), (''role'', PStr (msg_role r)),
            (''content'', PStr (msg_content r)), (''timestamp'', PStr (msg_timestamp r))]"

definition export_fact :: "memory_row \<Rightarrow> pyval" where
  "export_fact r =
     PDict [(''phone'', PStr (mem_phone r)), (''fact'', PStr (mem_fact r)),
            (''category'', py_of_text (mem_category r)), (''timestamp'', PStr (mem_timestamp r))]"

definition export_summary :: "summary_row \<Rightarrow> pyval" where
  "export_summary r =
     PDict [(''phone'', PStr (sum_phone r)), (''summary'', PStr (sum_summary r)),
            (''message_count'', py_of_sql (sum_message_count r)),
            (''timestamp'', PStr (sum_timestamp r))]"

definition export_memory_to_json :: "string \<Rightarrow> database \<Rightarrow> pyval" where
  "export_memory_to_json ts db =
     PDict [(''messages'', PList (map export_message (sort_key msg_id (messages db)))),
            (''memories'', PList (map export_fact (sort_key mem_id (memories db)))),
            (''summaries'', PList (map export_summary (sort_key sum_id (summaries db)))),
            (''exported_at'', PStr ts)]"

text \<open>
  The argument tuple \<^verbatim>\<open>(m[k1], m[k2], m[k3], m[k4])\<close> is evaluated left to right; the
  first subscript that fails raises.
\<close>

definition subscript4 ::
  "pyval \<Rightarrow> string \<Rightarrow> string \<Rightarrow> string \<Rightarrow> string \<Rightarrow> error + (pyval \<times> pyval \<times> pyval \<times> pyval)" where
  "subscript4 m k1 k2 k3 k4 =
     (case subscript m k1 of Inl e \<Rightarrow> Inl e | Inr a \<Rightarrow>
     (case subscript m k2 of Inl e \<Rightarrow> Inl e | Inr b \<Rightarrow>
     (case subscript m k3 of Inl e \<Rightarrow> Inl e | Inr c \<Rightarrow>
     (case subscript m k4 of Inl e \<Rightarrow> Inl e | Inr d \<Rightarrow> Inr (a, b, c, d)))))"

text \<open>
  One pass through each of the three loop bodies: \<^verbatim>\<open>try\<close> the statement,
  \<^verbatim>\<open>except Exception: pass\<close>.
\<close>

definition import_message :: "conversions \<Rightarrow> pyval \<Rightarrow> database \<Rightarrow> database" where
  "import_message cv m db =
     (case subscript4 m ''phone'' ''role'' ''content'' ''timestamp'' of
        Inl e \<Rightarrow> db
      | Inr (p, r, c, t) \<Rightarrow>
          (case insert_message cv p r c t db of Inl e \<Rightarrow> db | Inr db' \<Rightarrow> db'))"

definition import_fact :: "conversions \<Rightarrow> pyval \<Rightarrow> database \<Rightarrow> database" where
  "import_fact cv m db =
     (case subscript4 m ''phone'' ''fact'' ''category'' ''timestamp'' of
        Inl e \<Rightarrow> db
      | Inr (p, f, c, t) \<Rightarrow>
          (case insert_memory cv p f c t db of Inl e \<Rightarrow> db | Inr db' \<Rightarrow> db'))"

definition import_summary :: "conversions \<Rightarrow> pyval \<Rightarrow> database \<Rightarrow> database" where
  "import_summary cv s db =
     (case subscript4 s ''phone'' ''summary'' ''message_count'' ''timestamp'' of
        Inl e \<Rightarrow> db
      | Inr (p, t, n, ts) \<Rightarrow>
          (case insert_summary cv p t n ts db of Inl e \<Rightarrow> db | Inr db' \<Rightarrow> db'))"

text \<open>
  \<^verbatim>\<open>import_memory_from_json\<close>. The three loops share one connection, committed after the
  last loop. An exception that is not caught inside a loop body (\<^verbatim>\<open>data.get\<close> on a value
  that is no dict, iteration over a value that cannot be iterated) leaves the function
  before the commit, so the database stays as it was before the call. The closing
  \<^verbatim>\<open>print\<close> takes \<^verbatim>\<open>len\<close> of the three values after the commit.
\<close>

definition import_memory_from_json ::
  "conversions \<Rightarrow> pyval \<Rightarrow> database \<Rightarrow> (error + unit) \<times> database" where
  "import_memory_from_json cv data db =
     (case dict_get data ''messages'' (PList []) of Inl e \<Rightarrow> (Inl e, db) | Inr v1 \<Rightarrow>
     (case py_iter v1 of Inl e \<Rightarrow> (Inl e, db) | Inr ms \<Rightarrow>
     (case dict_get data ''memories'' (PList []) of Inl e \<Rightarrow> (Inl e, db) | Inr v2 \<Rightarrow>
     (case py_iter v2 of Inl e \<Rightarrow> (Inl e, db) | Inr fs \<Rightarrow>
     (case dict_get data ''summaries'' (PList []) of Inl e \<Rightarrow> (Inl e, db) | Inr v3 \<Rightarrow>
     (case py_iter v3 of Inl e \<Rightarrow> (Inl e, db) | Inr ss \<Rightarrow>
        (let db' = fold (import_summary cv) ss
                     (fold (import_fact cv) fs (fold (import_message cv) ms db))
         in (case py_len v1 of Inl e \<Rightarrow> (Inl e, db') | Inr n1 \<Rightarrow>
            (case py_len v2 of Inl e \<Rightarrow> (Inl e, db') | Inr n2 \<Rightarrow>
            (case py_len v3 of Inl e \<Rightarrow> (Inl e, db') | Inr n3 \<Rightarrow> (Inr (), db')))))))))))"

text \<open>
  Notions used to state what import does. The value the loop over \<open>key\<close> iterates; an
  entry is a dict that lacks one of the keys the loop body subscripts.
\<close>

definition snapshot_entries :: "(string \<times> pyval) list \<Rightarrow> string \<Rightarrow> pyval" where
  "snapshot_entries kvs key = (case map_of kvs key of None \<Rightarrow> PList [] | Some v \<Rightarrow> v)"

fun lacks_key :: "string list \<Rightarrow> pyval \<Rightarrow> bool" where
  "lacks_key keys (PDict kvs) = (\<exists>k \<in> set keys. map_of kvs k = None)"
| "lacks_key keys _ = False"

definition message_keys :: "string list" where
  "message_keys = [''phone'', ''role'', ''content'', ''timestamp'']"

definition fact_keys :: "string list" where
  "fact_keys = [''phone'', ''fact'', ''category'', ''timestamp'']"

definition summary_keys :: "string list" where
  "summary_keys = [''phone'', ''summary'', ''message_count'', ''timestamp'']"

text \<open>Rows without their ids.\<close>

definition message_content :: "message_row \<Rightarrow> string \<times> string \<times> string \<times> string" where
  "message_content r = (msg_phone r, msg_role r, msg_content r, msg_timestamp r)"

definition summary_content :: "summary_row \<Rightarrow> string \<times> string \<times> sqlval \<times> string" where
  "summary_content r = (sum_phone r, sum_summary r, sum_message_count r, sum_timestamp r)"

text \<open>
  Every stored \<^verbatim>\<open>message_count\<close> is a cell the INTEGER column can hold: read back and
  bound again it is the same cell, and the column's affinity keeps it as it is.
\<close>

definition stored_counts_ok :: "conversions \<Rightarrow> database \<Rightarrow> bool" where
  "stored_counts_ok cv db =
     (\<forall>r \<in> set (summaries db).
        bind_param (py_of_sql (sum_message_count r)) = Inr (sum_message_count r) \<and>
        integer_affinity cv (sum_message_count r) = sum_message_count r)"

text \<open>A small database for examples: one message, one fact and one summary of one caller.\<close>

definition example_db :: database where
  "example_db =
     snd (save_summary plain_conversions ''t3'' (PStr ''+1555'') (PStr ''talked about tea'') (PInt 4)
       (snd (save_memory plain_conversions ''t2'' (PStr ''+1555'') (PStr ''likes tea'')
              (PStr ''preference'')
          (snd (save_message plain_conversions ''t1'' (PStr ''+1555'') (PStr ''user'')
                 (PStr ''hello'') init_db)))))"

section \<open>Post-call summarizer\<close>

text \<open>
  What \<^verbatim>\<open>summarize_and_extract\<close> needs from outside the repository: whether importing and
  configuring the model client raises, the text the model answers to a prompt (or the
  exception of the call or of reading \<^verbatim>\<open>response.text\<close>), \<^verbatim>\<open>json.loads\<close>, and the clock,
  whose k-th reading during one run is \<open>clock k\<close>.
\<close>

record services =
  genai_setup :: "error option"
  generate_content :: "string \<Rightarrow> error + string"
  json_loads :: "string \<Rightarrow> error + pyval"
  clock :: "nat \<Rightarrow> string"

text \<open>Truth value of a JSON value, as \<^verbatim>\<open>if result.get('summary')\<close> tests it.\<close>

fun py_truthy :: "conversions \<Rightarrow> pyval \<Rightarrow> bool" where
  "py_truthy cv PNone = False"
| "py_truthy cv (PBool b) = b"
| "py_truthy cv (PInt i) = (i \<noteq> 0)"
| "py_truthy cv (PFloat r) = float_truthy cv r"
| "py_truthy cv (PStr s) = (s \<noteq> [])"
| "py_truthy cv (PList xs) = (xs \<noteq> [])"
| "py_truthy cv (PDict kvs) = (kvs \<noteq> [])"

text \<open>The text an f-string puts in place of \<^verbatim>\<open>{item}\<close>.\<close>

fun py_str :: "conversions \<Rightarrow> pyval \<Rightarrow> string" where
  "py_str cv (PStr s) = s"
| "py_str cv PNone = ''None''"
| "py_str cv (PBool b) = (if b then ''True'' else ''False'')"
| "py_str cv (PInt i) = dec_int i"
| "py_str cv v = str_other cv v"

definition newline :: char where
  "newline = CHR 0x0A"

text \<open>\<^verbatim>\<open>"\n".join(lines)\<close>.\<close>

fun join_lines :: "string list \<Rightarrow> string" where
  "join_lines [] = []"
| "join_lines [l] = l"
| "join_lines (l # m # ls) = l @ [newline] @ join_lines (m # ls)"

text \<open>\<^verbatim>\<open>xs[-n:]\<close> for positive \<open>n\<close>: the last \<open>n\<close> elements, all of them when there are fewer.\<close>

definition last_n :: "nat \<Rightarrow> 'a list \<Rightarrow> 'a list" where
  "last_n n xs = drop (length xs - n) xs"

definition speaker_line :: "history_entry \<Rightarrow> string" where
  "speaker_line m = (if h_role m = ''user'' then ''User'' else ''AI'') @ '': '' @ h_content m"

definition conversation_text :: "history_entry list \<Rightarrow> string" where
  "conversation_text all_msgs = join_lines (map speaker_line (last_n 20 all_msgs))"

definition build_prompt :: "string \<Rightarrow> string" where
  \<open>build_prompt conversation =
     join_lines
       [''Analyze this conversation and return a JSON response:'',
        ''{'',
        ''  "summary": "2-3 sentence summary of what was discussed",'',
        ''  "facts": ["list of important facts, preferences, or information the user shared"],'',
        ''  "action_items": ["any tasks or follow-ups mentioned"]'',
        ''}'',
        '''',
        ''Conversation:'',
        conversation,
        '''',
        ''Return ONLY valid JSON, nothing else.'']\<close>

text \<open>
  \<^verbatim>\<open>s.split(sep, 1)\<close> for a non-empty separator: the text before and after the leftmost
  occurrence of \<open>sep\<close>, or \<open>None\<close> when there is none (the result list has one element).
\<close>

fun split_once :: "string \<Rightarrow> string \<Rightarrow> (string \<times> string) option" where
  "split_once sep [] = None"
| "split_once sep (c # cs) =
     (if startswith (c # cs) sep then Some ([], drop (length sep) (c # cs))
      else (case split_once sep cs of None \<Rightarrow> None | Some (a, b) \<Rightarrow> Some (c # a, b)))"

definition fence :: string where
  "fence = ''```''"

text \<open>\<^verbatim>\<open>text.split('\n', 1)[1]\<close>: index 1 does not exist when the text has no newline.\<close>

definition after_first_line :: "string \<Rightarrow> error + string" where
  "after_first_line s =
     (case split_once [newline] s of None \<Rightarrow> Inl IndexError | Some (a, b) \<Rightarrow> Inr b)"

text \<open>
  \<^verbatim>\<open>s.rsplit('```', 1)[0]\<close>: the text before the rightmost fence, all of \<open>s\<close> when there is
  no fence. The rightmost occurrence in \<open>s\<close> is the leftmost one in the reversed text.
\<close>

definition before_last_fence :: "string \<Rightarrow> string" where
  "before_last_fence s =
     (case split_once (rev fence) (rev s) of None \<Rightarrow> s | Some (a, b) \<Rightarrow> rev b)"

text \<open>The block under \<^verbatim>\<open># Clean up markdown if present\<close>.\<close>

definition clean_markdown :: "string \<Rightarrow> error + string" where
  "clean_markdown text =
     (if startswith text fence
      then (case after_first_line text of
              Inl e \<Rightarrow> Inl e
            | Inr rest \<Rightarrow> Inr (py_strip (before_last_fence rest)))
      else Inr text)"

text \<open>
  From the prompt to the parsed \<^verbatim>\<open>result\<close>: the model call, \<^verbatim>\<open>response.text.strip()\<close>, the
  markdown clean-up and \<^verbatim>\<open>json.loads\<close>. The first exception ends it.
\<close>

definition model_result :: "services \<Rightarrow> string \<Rightarrow> error + pyval" where
  "model_result sv prompt =
     (case generate_content sv prompt of
        Inl e \<Rightarrow> Inl e
      | Inr raw \<Rightarrow>
          (case clean_markdown (py_strip raw) of
             Inl e \<Rightarrow> Inl e
           | Inr text \<Rightarrow> json_loads sv text))"

text \<open>
  The loop \<^verbatim>\<open>for fact in ...: save_memory(phone, fact, 'extracted')\<close>; \<open>k\<close> counts the
  clock readings made so far.
\<close>

fun save_facts ::
  "conversions \<Rightarrow> (nat \<Rightarrow> string) \<Rightarrow> nat \<Rightarrow> string \<Rightarrow> pyval list \<Rightarrow> database \<Rightarrow> database" where
  "save_facts cv clk k phone [] db = db"
| "save_facts cv clk k phone (fct # rest) db =
     save_facts cv clk (Suc k) phone rest
       (snd (save_memory cv (clk k) (PStr phone) fct (PStr ''extracted'') db))"

text \<open>The loop \<^verbatim>\<open>for item in ...: save_memory(phone, f"ACTION: {item}", 'action_item')\<close>.\<close>

fun save_actions ::
  "conversions \<Rightarrow> (nat \<Rightarrow> string) \<Rightarrow> nat \<Rightarrow> string \<Rightarrow> pyval list \<Rightarrow> database \<Rightarrow> database" where
  "save_actions cv clk k phone [] db = db"
| "save_actions cv clk k phone (item # rest) db =
     save_actions cv clk (Suc k) phone rest
       (snd (save_memory cv (clk k) (PStr phone) (PStr (''ACTION: '' @ py_str cv item))
              (PStr ''action_item'') db))"

text \<open>
  Everything after \<^verbatim>\<open>json.loads\<close>: the summary, the two loops and the closing
  \<^verbatim>\<open>print\<close>, which takes \<^verbatim>\<open>len\<close> of the two values again. \<open>n\<close> is \<^verbatim>\<open>len(all_msgs)\<close>.
  An exception leaves with the database as the calls before it committed it.
\<close>

definition store_result ::
  "conversions \<Rightarrow> (nat \<Rightarrow> string) \<Rightarrow> string \<Rightarrow> nat \<Rightarrow> pyval \<Rightarrow> database \<Rightarrow> (error + unit) \<times> database" where
  "store_result cv clk phone n result db =
     (case dict_get result ''summary'' PNone of
        Inl e \<Rightarrow> (Inl e, db)
      | Inr s \<Rightarrow>
         (case (if py_truthy cv s
                then save_summary cv (clk 0) (PStr phone) s (PInt (int n)) db
                else (Inr (), db)) of
            (Inl e, db1) \<Rightarrow> (Inl e, db1)
          | (Inr u, db1) \<Rightarrow>
             (let k = (if py_truthy cv s then 1 else 0) in
              (case dict_get result ''facts'' (PList []) of
                 Inl e \<Rightarrow> (Inl e, db1)
               | Inr fv \<Rightarrow>
                  (case py_iter fv of
                     Inl e \<Rightarrow> (Inl e, db1)
                   | Inr facts \<Rightarrow>
                      (let db2 = save_facts cv clk k phone facts db1 in
                       (case dict_get result ''action_items'' (PList []) of
                          Inl e \<Rightarrow> (Inl e, db2)
                        | Inr av \<Rightarrow>
                           (case py_iter av of
                              Inl e \<Rightarrow> (Inl e, db2)
                            | Inr items \<Rightarrow>
                               (let db3 = save_actions cv clk (k + length facts) phone items db2 in
                                (case py_len fv of
                                   Inl e \<Rightarrow> (Inl e, db3)
                                 | Inr n1 \<Rightarrow>
                                    (case py_len av of
                                       Inl e \<Rightarrow> (Inl e, db3)
                                     | Inr n2 \<Rightarrow> (Inr (), db3))))))))))))"

text \<open>The prompt a run for \<open>phone\<close> sends, built from the last 20 messages.\<close>

definition summary_prompt :: "string \<Rightarrow> database \<Rightarrow> string" where
  "summary_prompt phone db = build_prompt (conversation_text (get_all_history phone db))"

text \<open>
  What a run of the summarizer leaves: how it returned, the database, and the prompts
  it sent to the model.
\<close>

record summarizer_run =
  returned :: "error + unit"
  final_db :: database
  model_calls :: "string list"

text \<open>The body of the \<^verbatim>\<open>try\<close> block of \<^verbatim>\<open>summarize_and_extract\<close>.\<close>

definition summarize_body :: "conversions \<Rightarrow> services \<Rightarrow> string \<Rightarrow> database \<Rightarrow> summarizer_run" where
  "summarize_body cv sv phone db =
     (case genai_setup sv of
        Some e \<Rightarrow> \<lparr>returned = Inl e, final_db = db, model_calls = []\<rparr>
      | None \<Rightarrow>
         (let all_msgs = get_all_history phone db in
          if length all_msgs < 4
          then \<lparr>returned = Inr (), final_db = db, model_calls = []\<rparr>
          else
            (let prompt = build_prompt (conversation_text all_msgs) in
             (case model_result sv prompt of
                Inl e \<Rightarrow> \<lparr>returned = Inl e, final_db = db, model_calls = [prompt]\<rparr>
              | Inr result \<Rightarrow>
                 (case store_result cv (clock sv) phone (length all_msgs) result db of
                    (r, db') \<Rightarrow> \<lparr>returned = r, final_db = db', model_calls = [prompt]\<rparr>)))))"

text \<open>
  \<^verbatim>\<open>summarize_and_extract\<close>: \<^verbatim>\<open>except Exception\<close> prints the error and the function
  returns.
\<close>

definition summarize_and_extract :: "conversions \<Rightarrow> services \<Rightarrow> string \<Rightarrow> database \<Rightarrow> summarizer_run" where
  "summarize_and_extract cv sv phone db =
     (let run = summarize_body cv sv phone db in
      (case returned run of
         Inl e \<Rightarrow> run\<lparr>returned := Inr ()\<rparr>
       | Inr u \<Rightarrow> run))"

text \<open>
  Example services: the model answers every prompt with a fenced JSON object, and
  \<^verbatim>\<open>json.loads\<close> is given on that one text.
\<close>

definition example_json :: string where
  \<open>example_json = ''{"summary":"x","facts":["a"],"action_items":["call Bob"]}''\<close>

definition example_services :: services where
  "example_services =
     \<lparr>genai_setup = None,
      generate_content = (\<lambda>prompt. Inr (''```json'' @ [newline] @ example_json @ [newline] @ ''```'')),
      json_loads = (\<lambda>s. if s = example_json
                         then Inr (PDict [(''summary'', PStr ''x''), (''facts'', PList [PStr ''a'']),
                                          (''action_items'', PList [PStr ''call Bob''])])
                         else Inl JSONDecodeError),
      clock = (\<lambda>k. ''t5'')\<rparr>"

text \<open>Example services whose model call raises.\<close>

definition failing_services :: services where
  "failing_services = example_services\<lparr>generate_content := (\<lambda>prompt. Inl (ExternalError ''timeout''))\<rparr>"

text \<open>A database with four messages of one caller.\<close>

definition four_messages_db :: database where
  "four_messages_db =
     save_messages plain_conversions ''+1555''
       [(''t1'', ''user'', ''hello''), (''t2'', ''assistant'', ''hi''),
        (''t3'', ''user'', ''I like tea''), (''t4'', ''assistant'', ''noted'')] init_db"

text \<open>
  What both loops of the summarizer do when every entry is a string: a run of
  \<^verbatim>\<open>save_memory\<close> calls, one per (text, category) pair.
\<close>

fun save_texts ::
  "conversions \<Rightarrow> (nat \<Rightarrow> string) \<Rightarrow> nat \<Rightarrow> string \<Rightarrow> (string \<times> string) list \<Rightarrow> database \<Rightarrow> database" where
  "save_texts cv clk k phone [] db = db"
| "save_texts cv clk k phone ((t, c) # rest) db =
     save_texts cv clk (Suc k) phone rest
       (snd (save_memory cv (clk k) (PStr phone) (PStr t) (PStr c) db))"

text \<open>
  Example services whose model answers with an empty summary and the same fact twice.
\<close>

definition repeated_json :: string where
  \<open>repeated_json = ''{"summary":"","facts":["a","a"],"action_items":[]}''\<close>

definition repeated_services :: services where
  "repeated_services =
     \<lparr>genai_setup = None,
      generate_content = (\<lambda>prompt. Inr repeated_json),
      json_loads = (\<lambda>s. if s = repeated_json
                         then Inr (PDict [(''summary'', PStr []), (''facts'', PList [PStr ''a'', PStr ''a'']),
                                          (''action_items'', PList [])])
                         else Inl JSONDecodeError),
      clock = (\<lambda>k. ''t5'')\<rparr>"

text \<open>
  Example services whose answer parses to an object with a number under \<^verbatim>\<open>facts\<close>.
\<close>

definition ill_typed_json :: string where
  \<open>ill_typed_json = ''{"summary":"x","facts":5}''\<close>

definition ill_typed_services :: services where
  "ill_typed_services =
     \<lparr>genai_setup = None,
      generate_content = (\<lambda>prompt. Inr ill_typed_json),
      json_loads = (\<lambda>s. if s = ill_typed_json
                         then Inr (PDict [(''summary'', PStr ''x''), (''facts'', PInt 5)])
                         else Inl JSONDecodeError),
      clock = (\<lambda>k. ''t5'')\<rparr>"


section \<open>The invariant is kept by every statement\<close>

lemma ids_ok_snoc: "ids_ok ids seq \<Longrightarrow> ids_ok (ids @ [Suc seq]) (Suc seq)"
  by (auto simp: ids_ok_def sorted_wrt_append)

lemma ids_ok_Suc: "ids_ok ids seq \<Longrightarrow> ids_ok ids (Suc seq)"
  by (auto simp: ids_ok_def)

lemma db_invariant_init: "db_invariant init_db"
  by (simp add: db_invariant_def init_db_def ids_ok_def)

lemma insert_message_invariant:
  assumes "db_invariant db" and "insert_message cv p r c t db = Inr db'"
  shows "db_invariant db'"
  using assms
  by (auto simp: insert_message_def db_invariant_def ids_ok_snoc
      split: sum.splits prod.splits option.splits)

lemma insert_memory_invariant:
  assumes "db_invariant db" and "insert_memory cv p f c t db = Inr db'"
  shows "db_invariant db'"
  using assms
  by (auto simp: insert_memory_def db_invariant_def ids_ok_snoc ids_ok_Suc
      split: sum.splits prod.splits option.splits if_splits)

lemma insert_summary_invariant:
  assumes "db_invariant db" and "insert_summary cv p s n t db = Inr db'"
  shows "db_invariant db'"
  using assms
  by (auto simp: insert_summary_def db_invariant_def ids_ok_snoc
      split: sum.splits prod.splits option.splits)

lemma save_memory_invariant:
  "db_invariant db \<Longrightarrow> db_invariant (snd (save_memory cv ts p f c db))"
  by (auto simp: save_memory_def split: sum.splits dest: insert_memory_invariant)

lemma save_memory_returns: "fst (save_memory cv ts p f c db) = Inr ()"
  by (simp add: save_memory_def split: sum.splits)

section \<open>Reading a table in id order\<close>

lemma order_by_id:
  fixes f :: "'a \<Rightarrow> nat"
  assumes "sorted_wrt (<) (map f xs)"
  shows "sort_key f (filter P xs) = filter P xs"
proof -
  have "sorted (map f xs)"
    using assms by (rule strict_sorted_imp_sorted)
  then have "sorted (map f (filter P xs))"
    by (rule sorted_filter)
  then show ?thesis
    by (rule sort_key_id_if_sorted)
qed

lemma order_by_id_desc:
  fixes f :: "'a \<Rightarrow> nat"
  assumes "sorted_wrt (<) (map f xs)"
  shows "sort_key (\<lambda>r. - int (f r)) (filter P xs) = rev (filter P xs)"
proof (rule sort_key_inj_key_eq)
  let ?ys = "filter P xs"
  show "mset ?ys = mset (rev ?ys)" by simp
  have s: "sorted_wrt (\<lambda>a b. f a < f b) ?ys"
    using assms by (simp add: sorted_wrt_map sorted_wrt_filter)
  have "distinct (map f xs)"
    using assms strict_sorted_iff by blast
  then have "inj_on f (set xs)"
    by (simp add: distinct_map)
  then show "inj_on (\<lambda>r. - int (f r)) (set ?ys)"
    by (auto simp: inj_on_def)
  show "sorted (map (\<lambda>r. - int (f r)) (rev ?ys))"
    using s by (simp add: sorted_map sorted_wrt_rev) (erule sorted_wrt_mono_rel[rotated], simp)
qed

section \<open>Recording a fact\<close>

lemma distinct_key_filter:
  "distinct (map k xs) \<Longrightarrow> length (filter (\<lambda>r. k r = v) xs) \<le> 1"
  by (induction xs) (auto simp: filter_empty_conv image_iff)

lemma fact_rows_le_1: "db_invariant db \<Longrightarrow> length (fact_rows p f db) \<le> 1"
proof -
  assume "db_invariant db"
  then have "distinct (map (\<lambda>r. (mem_phone r, mem_fact r)) (memories db))"
    by (simp add: db_invariant_def)
  then have "length (filter (\<lambda>r. (mem_phone r, mem_fact r) = (p, f)) (memories db)) \<le> 1"
    by (rule distinct_key_filter)
  then show ?thesis by (simp add: fact_rows_def)
qed

lemma save_memory_str:
  "snd (save_memory cv ts (PStr p) (PStr f) (PStr c) db) =
     (if \<exists>r \<in> set (memories db). mem_phone r = p \<and> mem_fact r = f
      then db\<lparr>seq_memories := Suc (seq_memories db)\<rparr>
      else db\<lparr>memories := memories db @
                  [\<lparr>mem_id = Suc (seq_memories db), mem_phone = p, mem_fact = f,
                    mem_category = Some c, mem_timestamp = ts\<rparr>],
              seq_memories := Suc (seq_memories db)\<rparr>)"
  by (simp add: save_memory_def insert_memory_def bind4_def)

lemma fact_rows_after_save:
  "fact_rows p f (snd (save_memory cv ts (PStr p) (PStr f) (PStr c) db)) \<noteq> []"
  by (auto simp: save_memory_str fact_rows_def filter_empty_conv)

lemma fact_rows_one:
  assumes "db_invariant db"
  shows "length (fact_rows p f (snd (save_memory cv ts (PStr p) (PStr f) (PStr c) db))) = 1"
proof -
  let ?db = "snd (save_memory cv ts (PStr p) (PStr f) (PStr c) db)"
  have "length (fact_rows p f ?db) \<le> 1"
    using assms by (intro fact_rows_le_1 save_memory_invariant)
  moreover have "fact_rows p f ?db \<noteq> []"
    by (rule fact_rows_after_save)
  ultimately show ?thesis
    by (cases "fact_rows p f ?db") auto
qed

lemma save_memory_again:
  assumes "fact_rows p f db \<noteq> []"
  shows "memories (snd (save_memory cv ts (PStr p) (PStr f) (PStr c) db)) = memories db"
  using assms by (auto simp: save_memory_str fact_rows_def filter_empty_conv)

lemma fact_rows_other:
  assumes "q \<noteq> p"
  shows "fact_rows p f (snd (save_memory cv ts (PStr q) (PStr g) (PStr c) db)) = fact_rows p f db"
  using assms by (auto simp: save_memory_str fact_rows_def)

lemma ids_distinct_rows:
  assumes "db_invariant db" "r1 \<in> set (memories db)" "r2 \<in> set (memories db)" "r1 \<noteq> r2"
  shows "mem_id r1 \<noteq> mem_id r2"
proof -
  have "distinct (map mem_id (memories db))"
    using assms(1) by (simp add: db_invariant_def ids_ok_def strict_sorted_iff)
  then have "inj_on mem_id (set (memories db))"
    by (simp add: distinct_map)
  then show ?thesis
    using assms(2-4) by (auto simp: inj_on_def)
qed

text \<open>
  C1. On a database that satisfies the schema, \<^verbatim>\<open>save_memory\<close> called twice with the same
  identity and fact text (whatever the categories) returns normally both times, the
  second call leaves the table as the first left it, and exactly one row holds the
  pair. Called with the same fact text under a different identity \<open>q\<close>, it leaves one
  row for each identity, and the two rows have different ids.
\<close>

theorem save_memory_idempotent:
  assumes "db_invariant db"
  shows "fst (save_memory cv ts1 (PStr p) (PStr f) (PStr c1) db) = Inr () \<and>
         fst (save_memory cv ts2 (PStr p) (PStr f) (PStr c2)
                (snd (save_memory cv ts1 (PStr p) (PStr f) (PStr c1) db))) = Inr () \<and>
         memories (snd (save_memory cv ts2 (PStr p) (PStr f) (PStr c2)
                (snd (save_memory cv ts1 (PStr p) (PStr f) (PStr c1) db)))) =
           memories (snd (save_memory cv ts1 (PStr p) (PStr f) (PStr c1) db)) \<and>
         length (fact_rows p f (snd (save_memory cv ts2 (PStr p) (PStr f) (PStr c2)
                (snd (save_memory cv ts1 (PStr p) (PStr f) (PStr c1) db))))) = 1 \<and>
         (q \<noteq> p \<longrightarrow>
           (\<exists>r1 r2. fact_rows p f (snd (save_memory cv ts2 (PStr q) (PStr f) (PStr c2)
                        (snd (save_memory cv ts1 (PStr p) (PStr f) (PStr c1) db)))) = [r1] \<and>
                    fact_rows q f (snd (save_memory cv ts2 (PStr q) (PStr f) (PStr c2)
                        (snd (save_memory cv ts1 (PStr p) (PStr f) (PStr c1) db)))) = [r2] \<and>
                    mem_id r1 \<noteq> mem_id r2))"
proof -
  let ?db1 = "snd (save_memory cv ts1 (PStr p) (PStr f) (PStr c1) db)"
  let ?db2 = "snd (save_memory cv ts2 (PStr p) (PStr f) (PStr c2) ?db1)"
  let ?db3 = "snd (save_memory cv ts2 (PStr q) (PStr f) (PStr c2) ?db1)"
  have inv1: "db_invariant ?db1"
    using assms by (rule save_memory_invariant)
  have one1: "length (fact_rows p f ?db1) = 1"
    using assms by (rule fact_rows_one)
  then have ne: "fact_rows p f ?db1 \<noteq> []" by auto
  have same: "memories ?db2 = memories ?db1"
    using ne by (rule save_memory_again)
  have one2: "length (fact_rows p f ?db2) = 1"
    using one1 same by (simp add: fact_rows_def)
  have two: "\<exists>r1 r2. fact_rows p f ?db3 = [r1] \<and> fact_rows q f ?db3 = [r2] \<and> mem_id r1 \<noteq> mem_id r2"
    if qp: "q \<noteq> p"
  proof -
    have inv3: "db_invariant ?db3"
      using inv1 by (rule save_memory_invariant)
    have "length (fact_rows q f ?db3) = 1"
      using inv1 by (rule fact_rows_one)
    then obtain r2 where r2: "fact_rows q f ?db3 = [r2]"
      by (auto simp: length_Suc_conv)
    have "fact_rows p f ?db3 = fact_rows p f ?db1"
      using qp by (rule fact_rows_other)
    with one1 have "length (fact_rows p f ?db3) = 1"
      by simp
    then obtain r1 where r1: "fact_rows p f ?db3 = [r1]"
      by (auto simp: length_Suc_conv)
    have "r1 \<in> set (fact_rows p f ?db3)"
      using r1 by simp
    then have m1: "r1 \<in> set (memories ?db3) \<and> mem_phone r1 = p"
      by (simp add: fact_rows_def)
    have "r2 \<in> set (fact_rows q f ?db3)"
      using r2 by simp
    then have m2: "r2 \<in> set (memories ?db3) \<and> mem_phone r2 = q"
      by (simp add: fact_rows_def)
    from m1 m2 qp have "r1 \<noteq> r2" by auto
    with inv3 m1 m2 have "mem_id r1 \<noteq> mem_id r2"
      by (intro ids_distinct_rows) auto
    with r1 r2 show ?thesis by blast
  qed
  show ?thesis
    using save_memory_returns same one2 two by blast
qed

theorem save_memory_idempotent_witness:
  "db_invariant init_db \<and>
   length (fact_rows ''+1555'' ''likes tea''
     (snd (save_memory plain_conversions ''t2'' (PStr ''+1555'') (PStr ''likes tea'') (PStr ''general'')
        (snd (save_memory plain_conversions ''t1'' (PStr ''+1555'') (PStr ''likes tea'')
               (PStr ''preference'') init_db))))) = 1 \<and>
   ''+1777'' \<noteq> ''+1555'' \<and>
   (\<exists>r1 r2.
      fact_rows ''+1555'' ''likes tea''
        (snd (save_memory plain_conversions ''t2'' (PStr ''+1777'') (PStr ''likes tea'') (PStr ''general'')
           (snd (save_memory plain_conversions ''t1'' (PStr ''+1555'') (PStr ''likes tea'')
                  (PStr ''preference'') init_db)))) = [r1] \<and>
      fact_rows ''+1777'' ''likes tea''
        (snd (save_memory plain_conversions ''t2'' (PStr ''+1777'') (PStr ''likes tea'') (PStr ''general'')
           (snd (save_memory plain_conversions ''t1'' (PStr ''+1555'') (PStr ''likes tea'')
                  (PStr ''preference'') init_db)))) = [r2] \<and>
      mem_id r1 \<noteq> mem_id r2)"
  using save_memory_idempotent [OF db_invariant_init,
      where cv = plain_conversions and ?ts1.0 = "''t1''" and ?ts2.0 = "''t2''"
        and p = "''+1555''" and q = "''+1777''" and f = "''likes tea''"
        and ?c1.0 = "''preference''" and ?c2.0 = "''general''"]
  by (simp add: db_invariant_init)

section \<open>Message history\<close>

lemma save_message_str:
  "save_message cv ts (PStr p) (PStr r) (PStr c) db =
     (Inr (), db\<lparr>messages := messages db @
                  [\<lparr>msg_id = Suc (seq_messages db), msg_phone = p, msg_role = r,
                    msg_content = c, msg_timestamp = ts\<rparr>],
                seq_messages := Suc (seq_messages db)\<rparr>)"
  by (simp add: save_message_def insert_message_def bind4_def)

lemma save_message_invariant:
  "db_invariant db \<Longrightarrow> db_invariant (snd (save_message cv ts p r c db))"
  by (auto simp: save_message_def split: sum.splits dest: insert_message_invariant)

lemma get_all_history_plain:
  assumes "db_invariant db"
  shows "get_all_history p db = map history_of (messages_of p db)"
proof -
  have "sorted_wrt (<) (map msg_id (messages db))"
    using assms by (simp add: db_invariant_def ids_ok_def)
  then have "sort_key msg_id (messages_of p db) = messages_of p db"
    unfolding messages_of_def by (rule order_by_id)
  then show ?thesis by (simp add: get_all_history_def)
qed

lemma get_conversation_history_plain:
  assumes "db_invariant db" and "- (2 ^ 63) \<le> k" and "k < 2 ^ 63"
  shows "get_conversation_history p k db =
         Inr (map history_of (rev (sql_limit k (rev (messages_of p db)))))"
proof -
  have "sorted_wrt (<) (map msg_id (messages db))"
    using assms by (simp add: db_invariant_def ids_ok_def)
  then have "sort_key (\<lambda>r. - int (msg_id r)) (messages_of p db) = rev (messages_of p db)"
    unfolding messages_of_def by (rule order_by_id_desc)
  then show ?thesis
    using assms(2,3) by (simp add: get_conversation_history_def)
qed

lemma messages_of_save_message:
  "messages_of p (snd (save_message cv ts (PStr p) (PStr r) (PStr c) db)) =
     messages_of p db @
       [\<lparr>msg_id = Suc (seq_messages db), msg_phone = p, msg_role = r,
         msg_content = c, msg_timestamp = ts\<rparr>]"
  by (simp add: save_message_str messages_of_def)

lemma save_messages_invariant:
  "db_invariant db \<Longrightarrow> db_invariant (save_messages cv p turns db)"
  by (induction turns arbitrary: db) (auto simp: save_message_invariant)

lemma messages_of_save_messages:
  "map history_of (messages_of p (save_messages cv p turns db)) =
     map history_of (messages_of p db) @
       map (\<lambda>(ts, r, c). \<lparr>h_role = r, h_content = c, h_timestamp = ts\<rparr>) turns"
  by (induction turns arbitrary: db)
     (auto simp: messages_of_save_message history_of_def)

lemma messages_of_save_other:
  assumes "q \<noteq> p"
  shows "messages_of p (snd (save_message cv ts (PStr q) (PStr r) (PStr c) db)) = messages_of p db"
  using assms by (simp add: save_message_str messages_of_def)

lemma save_calls_invariant:
  "db_invariant db \<Longrightarrow> db_invariant (save_calls cv calls db)"
  by (induction calls arbitrary: db) (auto simp: save_message_invariant)

lemma messages_of_save_calls:
  "map history_of (messages_of p (save_calls cv calls db)) =
     map history_of (messages_of p db) @
       map entry_of_call (filter (\<lambda>c. fst c = p) calls)"
proof (induction calls arbitrary: db)
  case Nil
  then show ?case by simp
next
  case (Cons call calls)
  obtain q ts r c where call: "call = (q, ts, r, c)"
    by (cases call) auto
  show ?case
  proof (cases "q = p")
    case True
    then show ?thesis
      using Cons.IH
      by (simp add: call messages_of_save_message history_of_def entry_of_call_def)
  next
    case False
    then show ?thesis
      using Cons.IH by (simp add: call messages_of_save_other)
  qed
qed

lemma save_calls_one_phone:
  "save_calls cv (map (\<lambda>(ts, r, c). (p, ts, r, c)) turns) db = save_messages cv p turns db"
  by (induction turns arbitrary: db) auto

text \<open>
  C8. After any sequence of \<^verbatim>\<open>save_message\<close> calls for one phone number,
  \<^verbatim>\<open>get_all_history\<close> for that number returns what it returned before, followed by
  exactly the saved messages in the order of the calls. The same holds when calls for
  other phone numbers come in between: the history of a number gains the messages saved
  for that number, in the order of their calls, and none of the others. On a fresh
  database the history is exactly the messages saved for the number.
\<close>

theorem get_all_history_append_order:
  assumes "db_invariant db"
  shows "get_all_history p (save_messages cv p turns db) =
           get_all_history p db @
             map (\<lambda>(ts, r, c). \<lparr>h_role = r, h_content = c, h_timestamp = ts\<rparr>) turns \<and>
         get_all_history p (save_calls cv calls db) =
           get_all_history p db @ map entry_of_call (filter (\<lambda>c. fst c = p) calls) \<and>
         get_all_history p (save_calls cv calls init_db) =
           map entry_of_call (filter (\<lambda>c. fst c = p) calls)"
proof -
  have "db_invariant (save_messages cv p turns db)"
    using assms by (rule save_messages_invariant)
  then have "get_all_history p (save_messages cv p turns db) =
      map history_of (messages_of p (save_messages cv p turns db))"
    by (rule get_all_history_plain)
  also have "\<dots> = map history_of (messages_of p db) @
      map (\<lambda>(ts, r, c). \<lparr>h_role = r, h_content = c, h_timestamp = ts\<rparr>) turns"
    by (rule messages_of_save_messages)
  finally have a: "get_all_history p (save_messages cv p turns db) =
           get_all_history p db @
             map (\<lambda>(ts, r, c). \<lparr>h_role = r, h_content = c, h_timestamp = ts\<rparr>) turns"
    using assms by (simp add: get_all_history_plain)
  have general: "get_all_history p (save_calls cv calls d) =
      get_all_history p d @ map entry_of_call (filter (\<lambda>c. fst c = p) calls)"
    if d: "db_invariant d" for d
  proof -
    have "db_invariant (save_calls cv calls d)"
      using d by (rule save_calls_invariant)
    then have "get_all_history p (save_calls cv calls d) =
        map history_of (messages_of p (save_calls cv calls d))"
      by (rule get_all_history_plain)
    also have "\<dots> = map history_of (messages_of p d) @
        map entry_of_call (filter (\<lambda>c. fst c = p) calls)"
      by (rule messages_of_save_calls)
    finally show ?thesis
      using d by (simp add: get_all_history_plain)
  qed
  have b: "get_all_history p (save_calls cv calls db) =
           get_all_history p db @ map entry_of_call (filter (\<lambda>c. fst c = p) calls)"
    using assms by (rule general)
  have "get_all_history p init_db = []"
    by (simp add: get_all_history_def messages_of_def init_db_def)
  then have c: "get_all_history p (save_calls cv calls init_db) =
           map entry_of_call (filter (\<lambda>c. fst c = p) calls)"
    using general [OF db_invariant_init] by simp
  show ?thesis
    using a b c by (intro conjI)
qed

theorem get_all_history_append_order_witness:
  "db_invariant init_db \<and>
   get_all_history ''+1555''
     (save_messages plain_conversions ''+1555''
        [(''t1'', ''user'', ''hello''), (''t2'', ''assistant'', ''hi''), (''t3'', ''user'', ''bye'')]
        init_db) =
     [\<lparr>h_role = ''user'', h_content = ''hello'', h_timestamp = ''t1''\<rparr>,
      \<lparr>h_role = ''assistant'', h_content = ''hi'', h_timestamp = ''t2''\<rparr>,
      \<lparr>h_role = ''user'', h_content = ''bye'', h_timestamp = ''t3''\<rparr>] \<and>
   get_all_history ''+1555''
     (save_calls plain_conversions
        [(''+1555'', ''t1'', ''user'', ''hello''), (''+1777'', ''t2'', ''user'', ''hey''),
         (''+1555'', ''t3'', ''assistant'', ''hi''), (''+1777'', ''t4'', ''assistant'', ''yo'')]
        init_db) =
     [\<lparr>h_role = ''user'', h_content = ''hello'', h_timestamp = ''t1''\<rparr>,
      \<lparr>h_role = ''assistant'', h_content = ''hi'', h_timestamp = ''t3''\<rparr>] \<and>
   get_all_history ''+1777''
     (save_calls plain_conversions
        [(''+1555'', ''t1'', ''user'', ''hello''), (''+1777'', ''t2'', ''user'', ''hey''),
         (''+1555'', ''t3'', ''assistant'', ''hi''), (''+1777'', ''t4'', ''assistant'', ''yo'')]
        init_db) =
     [\<lparr>h_role = ''user'', h_content = ''hey'', h_timestamp = ''t2''\<rparr>,
      \<lparr>h_role = ''assistant'', h_content = ''yo'', h_timestamp = ''t4''\<rparr>]"
proof -
  have e: "get_all_history p init_db = []" for p
    by (simp add: get_all_history_def messages_of_def init_db_def)
  have a: "get_all_history ''+1555''
     (save_messages plain_conversions ''+1555''
        [(''t1'', ''user'', ''hello''), (''t2'', ''assistant'', ''hi''), (''t3'', ''user'', ''bye'')]
        init_db) =
     [\<lparr>h_role = ''user'', h_content = ''hello'', h_timestamp = ''t1''\<rparr>,
      \<lparr>h_role = ''assistant'', h_content = ''hi'', h_timestamp = ''t2''\<rparr>,
      \<lparr>h_role = ''user'', h_content = ''bye'', h_timestamp = ''t3''\<rparr>]"
    using get_all_history_append_order [OF db_invariant_init,
        where cv = plain_conversions and p = "''+1555''"
          and turns = "[(''t1'', ''user'', ''hello''), (''t2'', ''assistant'', ''hi''),
                        (''t3'', ''user'', ''bye'')]", THEN conjunct1]
    by (simp add: e)
  have b: "get_all_history ''+1555''
     (save_calls plain_conversions
        [(''+1555'', ''t1'', ''user'', ''hello''), (''+1777'', ''t2'', ''user'', ''hey''),
         (''+1555'', ''t3'', ''assistant'', ''hi''), (''+1777'', ''t4'', ''assistant'', ''yo'')]
        init_db) =
     [\<lparr>h_role = ''user'', h_content = ''hello'', h_timestamp = ''t1''\<rparr>,
      \<lparr>h_role = ''assistant'', h_content = ''hi'', h_timestamp = ''t3''\<rparr>]"
    using get_all_history_append_order [OF db_invariant_init,
        where cv = plain_conversions and p = "''+1555''"
          and calls = "[(''+1555'', ''t1'', ''user'', ''hello''), (''+1777'', ''t2'', ''user'', ''hey''),
         (''+1555'', ''t3'', ''assistant'', ''hi''), (''+1777'', ''t4'', ''assistant'', ''yo'')]", THEN conjunct2, THEN conjunct1]
    by (simp add: e entry_of_call_def)
  have c: "get_all_history ''+1777''
     (save_calls plain_conversions
        [(''+1555'', ''t1'', ''user'', ''hello''), (''+1777'', ''t2'', ''user'', ''hey''),
         (''+1555'', ''t3'', ''assistant'', ''hi''), (''+1777'', ''t4'', ''assistant'', ''yo'')]
        init_db) =
     [\<lparr>h_role = ''user'', h_content = ''hey'', h_timestamp = ''t2''\<rparr>,
      \<lparr>h_role = ''assistant'', h_content = ''yo'', h_timestamp = ''t4''\<rparr>]"
    using get_all_history_append_order [OF db_invariant_init,
        where cv = plain_conversions and p = "''+1777''"
          and calls = "[(''+1555'', ''t1'', ''user'', ''hello''), (''+1777'', ''t2'', ''user'', ''hey''),
         (''+1555'', ''t3'', ''assistant'', ''hi''), (''+1777'', ''t4'', ''assistant'', ''yo'')]", THEN conjunct2, THEN conjunct2]
    by (simp add: entry_of_call_def)
  show ?thesis
    using db_invariant_init a b c by simp
qed

text \<open>
  C9, amended. With a limit \<open>k\<close> that is at least \<^verbatim>\<open>get_message_count(phone)\<close> and that
  SQLite can bind (below \<open>2 ^ 63\<close>), \<^verbatim>\<open>get_conversation_history(phone, k)\<close> returns, and
  returns the same sequence as \<^verbatim>\<open>get_all_history(phone)\<close>.
\<close>

theorem recent_history_covers_full:
  assumes "db_invariant db" and "int (get_message_count p db) \<le> k" and "k < 2 ^ 63"
  shows "get_conversation_history p k db = Inr (get_all_history p db)"
proof -
  have "sql_limit k (rev (messages_of p db)) = rev (messages_of p db)"
    using assms(2) by (simp add: sql_limit_def get_message_count_def)
  moreover have "- (2 ^ 63) \<le> k"
  proof -
    have "(0::int) \<le> int (get_message_count p db)" by simp
    then have "0 \<le> k" using assms(2) by (rule order_trans)
    then show ?thesis by simp
  qed
  ultimately show ?thesis
    using assms(1,3) by (simp add: get_conversation_history_plain get_all_history_plain)
qed

theorem recent_history_covers_full_witness:
  "db_invariant (save_messages plain_conversions ''+1555''
        [(''t1'', ''user'', ''hello''), (''t2'', ''assistant'', ''hi'')] init_db) \<and>
   int (get_message_count ''+1555'' (save_messages plain_conversions ''+1555''
        [(''t1'', ''user'', ''hello''), (''t2'', ''assistant'', ''hi'')] init_db)) \<le> 2 \<and>
   (2::int) < 2 ^ 63 \<and>
   get_conversation_history ''+1555'' 2 (save_messages plain_conversions ''+1555''
        [(''t1'', ''user'', ''hello''), (''t2'', ''assistant'', ''hi'')] init_db) =
     Inr [\<lparr>h_role = ''user'', h_content = ''hello'', h_timestamp = ''t1''\<rparr>,
          \<lparr>h_role = ''assistant'', h_content = ''hi'', h_timestamp = ''t2''\<rparr>]"
proof -
  let ?db = "save_messages plain_conversions ''+1555''
        [(''t1'', ''user'', ''hello''), (''t2'', ''assistant'', ''hi'')] init_db"
  have inv: "db_invariant ?db"
    by (rule save_messages_invariant [OF db_invariant_init])
  have cnt: "int (get_message_count ''+1555'' ?db) \<le> 2"
    by (simp add: get_message_count_def messages_of_def save_message_str init_db_def)
  have rng: "(2::int) < 2 ^ 63"
    by simp
  have all: "get_all_history ''+1555'' ?db =
     [\<lparr>h_role = ''user'', h_content = ''hello'', h_timestamp = ''t1''\<rparr>,
      \<lparr>h_role = ''assistant'', h_content = ''hi'', h_timestamp = ''t2''\<rparr>]"
    by (simp add: get_all_history_def messages_of_def save_message_str init_db_def history_of_def)
  show ?thesis
    using inv cnt all recent_history_covers_full [OF inv cnt rng] by simp
qed

text \<open>
  C9 as stated fails: the limit \<open>2 ^ 63\<close> is at least the message count, and
  \<^verbatim>\<open>get_conversation_history\<close> raises \<^verbatim>\<open>OverflowError\<close> where \<^verbatim>\<open>get_all_history\<close> returns the
  two stored messages.
\<close>

theorem recent_history_overflow_counterexample:
  "int (get_message_count ''+1555'' (save_messages plain_conversions ''+1555''
        [(''t1'', ''user'', ''hello''), (''t2'', ''assistant'', ''hi'')] init_db)) \<le> 2 ^ 63 \<and>
   get_conversation_history ''+1555'' (2 ^ 63) (save_messages plain_conversions ''+1555''
        [(''t1'', ''user'', ''hello''), (''t2'', ''assistant'', ''hi'')] init_db) =
     Inl OverflowError \<and>
   get_all_history ''+1555'' (save_messages plain_conversions ''+1555''
        [(''t1'', ''user'', ''hello''), (''t2'', ''assistant'', ''hi'')] init_db) =
     [\<lparr>h_role = ''user'', h_content = ''hello'', h_timestamp = ''t1''\<rparr>,
      \<lparr>h_role = ''assistant'', h_content = ''hi'', h_timestamp = ''t2''\<rparr>]"
proof -
  let ?db = "save_messages plain_conversions ''+1555''
        [(''t1'', ''user'', ''hello''), (''t2'', ''assistant'', ''hi'')] init_db"
  have cnt: "int (get_message_count ''+1555'' ?db) \<le> 2 ^ 63"
    by (simp add: get_message_count_def messages_of_def save_message_str init_db_def)
  have ovf: "get_conversation_history ''+1555'' (2 ^ 63) ?db = Inl OverflowError"
    by (simp add: get_conversation_history_def)
  have all: "get_all_history ''+1555'' ?db =
     [\<lparr>h_role = ''user'', h_content = ''hello'', h_timestamp = ''t1''\<rparr>,
      \<lparr>h_role = ''assistant'', h_content = ''hi'', h_timestamp = ''t2''\<rparr>]"
    by (simp add: get_all_history_def messages_of_def save_message_str init_db_def history_of_def)
  show ?thesis
    using cnt ovf all by simp
qed

section \<open>Keyword extraction\<close>

lemma startswith_iff: "startswith s p \<longleftrightarrow> (\<exists>post. s = p @ post)"
  by (induction s p rule: startswith.induct) auto

lemma py_in_iff: "py_in kw s \<longleftrightarrow> (\<exists>pre post. s = pre @ kw @ post)"
proof (induction s)
  case Nil
  then show ?case by auto
next
  case (Cons c cs)
  show ?case
  proof
    assume "py_in kw (c # cs)"
    then consider "startswith (c # cs) kw" | "py_in kw cs" by auto
    then show "\<exists>pre post. c # cs = pre @ kw @ post"
    proof cases
      case 1
      then obtain post where "c # cs = kw @ post"
        by (auto simp: startswith_iff)
      then have "c # cs = [] @ kw @ post" by simp
      then show ?thesis by blast
    next
      case 2
      then obtain pre post where "cs = pre @ kw @ post"
        using Cons.IH by auto
      then have "c # cs = (c # pre) @ kw @ post" by simp
      then show ?thesis by blast
    qed
  next
    assume "\<exists>pre post. c # cs = pre @ kw @ post"
    then obtain pre post where e: "c # cs = pre @ kw @ post" by blast
    show "py_in kw (c # cs)"
    proof (cases pre)
      case Nil
      with e have "startswith (c # cs) kw"
        by (auto simp: startswith_iff)
      then show ?thesis by simp
    next
      case (Cons a pre')
      with e have "cs = pre' @ kw @ post" by simp
      then have "py_in kw cs"
        using Cons.IH by blast
      then show ?thesis by simp
    qed
  qed
qed

lemma scan_keywords_iff:
  "scan_keywords kws s \<longleftrightarrow> (\<exists>kw \<in> set kws. \<exists>pre post. s = pre @ kw @ post)"
  by (induction kws) (auto simp: py_in_iff)

lemma scan_patterns_first_match:
  "scan_patterns table s = first_matching_category table s"
  by (induction table s rule: scan_patterns.induct)
     (auto simp: first_matching_category_def scan_keywords_iff)

lemma fact_patterns_order:
  "map fst fact_patterns = [''preference'', ''personal'', ''goal'', ''business'', ''reminder'']"
  by (simp add: fact_patterns_def)

lemma save_memory_rows:
  "memories (snd (save_memory cv ts (PStr p) (PStr f) (PStr c) db)) = memories db \<or>
   memories (snd (save_memory cv ts (PStr p) (PStr f) (PStr c) db)) =
     memories db @ [\<lparr>mem_id = Suc (seq_memories db), mem_phone = p, mem_fact = f,
                     mem_category = Some c, mem_timestamp = ts\<rparr>]"
  by (simp add: save_memory_str)

lemma save_memory_fresh:
  assumes "fact_rows p f db = []"
  shows "memories (snd (save_memory cv ts (PStr p) (PStr f) (PStr c) db)) =
     memories db @ [\<lparr>mem_id = Suc (seq_memories db), mem_phone = p, mem_fact = f,
                     mem_category = Some c, mem_timestamp = ts\<rparr>]"
  using assms by (auto simp: save_memory_str fact_rows_def filter_empty_conv)

text \<open>
  C4, amended. The table lists the categories in the order preference, personal, goal,
  business, reminder. For every utterance the extractor returns normally. When no phrase
  occurs in the lower-cased utterance it leaves the database as it is. Otherwise it makes
  one \<^verbatim>\<open>save_memory\<close> call, with the utterance stripped of surrounding whitespace,
  under the first category of the table that has a matching phrase. So the table of
  facts either stays as it is or gains that one row.
\<close>

theorem extract_first_match_stripped:
  "map fst fact_patterns = [''preference'', ''personal'', ''goal'', ''business'', ''reminder''] \<and>
   fst (extract_memories_from_message cv ts p u db) = Inr () \<and>
   (case first_matching_category fact_patterns (py_lower u) of
      None \<Rightarrow> snd (extract_memories_from_message cv ts p u db) = db
    | Some cat \<Rightarrow>
        extract_memories_from_message cv ts p u db =
          save_memory cv ts (PStr p) (PStr (py_strip u)) (PStr cat) db) \<and>
   (memories (snd (extract_memories_from_message cv ts p u db)) = memories db \<or>
    memories (snd (extract_memories_from_message cv ts p u db)) =
      memories db @
        [\<lparr>mem_id = Suc (seq_memories db), mem_phone = p, mem_fact = py_strip u,
          mem_category = first_matching_category fact_patterns (py_lower u),
          mem_timestamp = ts\<rparr>])"
proof (cases "scan_patterns fact_patterns (py_lower u)")
  case None
  then have "extract_memories_from_message cv ts p u db = (Inr (), db)"
    by (simp add: extract_memories_from_message_def)
  with None show ?thesis
    by (simp add: fact_patterns_order scan_patterns_first_match [symmetric])
next
  case (Some cat)
  then have e: "extract_memories_from_message cv ts p u db =
      save_memory cv ts (PStr p) (PStr (py_strip u)) (PStr cat) db"
    by (simp add: extract_memories_from_message_def)
  have c: "first_matching_category fact_patterns (py_lower u) = Some cat"
    using Some by (simp add: scan_patterns_first_match)
  show ?thesis
    using save_memory_rows [of cv ts p "py_strip u" cat db]
    by (simp add: e c fact_patterns_order save_memory_returns)
qed

theorem extract_first_match_stripped_witness:
  "snd (extract_memories_from_message plain_conversions ''t1'' ''+1555'' ''It is sunny today'' init_db)
     = init_db \<and>
   extract_memories_from_message plain_conversions ''t1'' ''+1555'' ''I LOVE my startup  '' init_db =
     save_memory plain_conversions ''t1'' (PStr ''+1555'') (PStr ''I LOVE my startup'')
       (PStr ''preference'') init_db"
proof -
  have n: "scan_patterns fact_patterns (py_lower ''It is sunny today'') = None"
    by code_simp
  have s: "scan_patterns fact_patterns (py_lower ''I LOVE my startup  '') = Some ''preference''"
    by code_simp
  have t: "py_strip ''I LOVE my startup  '' = ''I LOVE my startup''"
    by code_simp
  show ?thesis
    using extract_first_match_stripped [where cv = plain_conversions and ts = "''t1''"
        and p = "''+1555''" and u = "''It is sunny today''" and db = init_db]
      extract_first_match_stripped [where cv = plain_conversions and ts = "''t1''"
        and p = "''+1555''" and u = "''I LOVE my startup  ''" and db = init_db]
    by (simp add: scan_patterns_first_match [symmetric] n s t)
qed

text \<open>
  C4 as stated fails: an utterance that starts with a space is not stored verbatim.
\<close>

theorem extract_verbatim_counterexample:
  "map mem_fact (memories (snd (extract_memories_from_message plain_conversions ''t1'' ''+1555''
      '' I like tea'' init_db))) = [''I like tea''] \<and>
   ''I like tea'' \<noteq> '' I like tea''"
  by code_simp

lemma sam_scan:
  "scan_patterns fact_patterns (py_lower ''My name is Sam and I like tea'') = Some ''preference''"
  by code_simp

lemma sam_strip: "py_strip ''My name is Sam and I like tea'' = ''My name is Sam and I like tea''"
  by code_simp

text \<open>
  C3, amended. On the utterance \<^verbatim>\<open>My name is Sam and I like tea\<close> the extractor makes one
  \<^verbatim>\<open>save_memory\<close> call with category \<^verbatim>\<open>preference\<close>: the phrase \<^verbatim>\<open>i like\<close> belongs to
  the first category of the table. Where the identity does not hold that text yet, the
  call adds exactly one row, of category \<^verbatim>\<open>preference\<close>.
\<close>

theorem extract_sam_preference:
  "extract_memories_from_message cv ts p ''My name is Sam and I like tea'' db =
     save_memory cv ts (PStr p) (PStr ''My name is Sam and I like tea'') (PStr ''preference'') db \<and>
   (fact_rows p ''My name is Sam and I like tea'' db = [] \<longrightarrow>
      memories (snd (extract_memories_from_message cv ts p ''My name is Sam and I like tea'' db)) =
        memories db @
          [\<lparr>mem_id = Suc (seq_memories db), mem_phone = p,
            mem_fact = ''My name is Sam and I like tea'',
            mem_category = Some ''preference'', mem_timestamp = ts\<rparr>])"
proof -
  have e: "extract_memories_from_message cv ts p ''My name is Sam and I like tea'' db =
     save_memory cv ts (PStr p) (PStr ''My name is Sam and I like tea'') (PStr ''preference'') db"
    by (simp only: extract_memories_from_message_def sam_scan sam_strip option.case)
  show ?thesis
    unfolding e using save_memory_fresh by blast
qed

theorem extract_sam_preference_witness:
  "fact_rows ''+1555'' ''My name is Sam and I like tea'' init_db = [] \<and>
   memories (snd (extract_memories_from_message plain_conversions ''t1'' ''+1555''
       ''My name is Sam and I like tea'' init_db)) =
     [\<lparr>mem_id = 1, mem_phone = ''+1555'', mem_fact = ''My name is Sam and I like tea'',
       mem_category = Some ''preference'', mem_timestamp = ''t1''\<rparr>]"
proof -
  have f: "fact_rows ''+1555'' ''My name is Sam and I like tea'' init_db = []"
    by (simp add: fact_rows_def init_db_def)
  have m: "memories init_db = []" "seq_memories init_db = 0"
    by (simp_all add: init_db_def)
  have "memories (snd (extract_memories_from_message plain_conversions ''t1'' ''+1555''
       ''My name is Sam and I like tea'' init_db)) =
     memories init_db @
       [\<lparr>mem_id = Suc (seq_memories init_db), mem_phone = ''+1555'',
         mem_fact = ''My name is Sam and I like tea'',
         mem_category = Some ''preference'', mem_timestamp = ''t1''\<rparr>]"
    using f extract_sam_preference [where cv = plain_conversions and ts = "''t1''"
        and p = "''+1555''" and db = init_db]
    by blast
  then show ?thesis
    using f by (simp add: m)
qed

text \<open>
  C3 as stated fails: on the empty database the one recorded row is not of category
  \<^verbatim>\<open>personal\<close>.
\<close>

theorem extract_sam_personal_counterexample:
  "\<not> (\<exists>r. memories (snd (extract_memories_from_message plain_conversions ''t1'' ''+1555''
            ''My name is Sam and I like tea'' init_db)) = [r] \<and>
          mem_category r = Some ''personal'')"
proof -
  have "map mem_category (memories (snd (extract_memories_from_message plain_conversions ''t1''
      ''+1555'' ''My name is Sam and I like tea'' init_db))) = [Some ''preference'']"
    by code_simp
  then show ?thesis by auto
qed

section \<open>Snapshot import\<close>

lemma dict_get_entries:
  "dict_get (PDict kvs) key (PList []) = Inr (snapshot_entries kvs key)"
  by (simp add: snapshot_entries_def split: option.splits)

lemma py_len_of_iter: "py_iter v = Inr xs \<Longrightarrow> \<exists>n. py_len v = Inr n"
  by (cases v) auto

lemma import_memory_from_json_dict:
  assumes "py_iter (snapshot_entries kvs ''messages'') = Inr ms"
      and "py_iter (snapshot_entries kvs ''memories'') = Inr fs"
      and "py_iter (snapshot_entries kvs ''summaries'') = Inr ss"
  shows "import_memory_from_json cv (PDict kvs) db =
           (Inr (), fold (import_summary cv) ss
                      (fold (import_fact cv) fs (fold (import_message cv) ms db)))"
proof -
  obtain n1 where n1: "py_len (snapshot_entries kvs ''messages'') = Inr n1"
    using assms(1) py_len_of_iter by blast
  obtain n2 where n2: "py_len (snapshot_entries kvs ''memories'') = Inr n2"
    using assms(2) py_len_of_iter by blast
  obtain n3 where n3: "py_len (snapshot_entries kvs ''summaries'') = Inr n3"
    using assms(3) py_len_of_iter by blast
  show ?thesis
    unfolding import_memory_from_json_def dict_get_entries
    by (simp only: assms n1 n2 n3 sum.case Let_def)
qed

lemma subscript4_lacks_key:
  assumes "lacks_key [k1, k2, k3, k4] m"
  shows "\<exists>e. subscript4 m k1 k2 k3 k4 = Inl e"
proof (cases m)
  case (PDict kvs)
  with assms show ?thesis
    by (auto simp: subscript4_def split: option.splits)
qed (use assms in auto)

lemma import_message_lacks_key:
  "lacks_key message_keys m \<Longrightarrow> import_message cv m db = db"
  using subscript4_lacks_key [of "''phone''" "''role''" "''content''" "''timestamp''" m]
  by (auto simp: import_message_def message_keys_def)

lemma import_fact_lacks_key:
  "lacks_key fact_keys m \<Longrightarrow> import_fact cv m db = db"
  using subscript4_lacks_key [of "''phone''" "''fact''" "''category''" "''timestamp''" m]
  by (auto simp: import_fact_def fact_keys_def)

lemma import_summary_lacks_key:
  "lacks_key summary_keys m \<Longrightarrow> import_summary cv m db = db"
  using subscript4_lacks_key [of "''phone''" "''summary''" "''message_count''" "''timestamp''" m]
  by (auto simp: import_summary_def summary_keys_def)

lemma fold_skip:
  assumes "\<And>x s. P x \<Longrightarrow> f x s = s"
  shows "fold f xs s = fold f (filter (\<lambda>x. \<not> P x) xs) s"
  by (induction xs arbitrary: s) (auto simp: assms)

lemma subscript4_dict:
  assumes "map_of e k1 = Some a" "map_of e k2 = Some b" "map_of e k3 = Some c" "map_of e k4 = Some d"
  shows "subscript4 (PDict e) k1 k2 k3 k4 = Inr (a, b, c, d)"
  using assms by (simp add: subscript4_def)

lemma insert_message_str:
  "insert_message cv (PStr p) (PStr r) (PStr c) (PStr t) db =
     Inr (db\<lparr>messages := messages db @
               [\<lparr>msg_id = Suc (seq_messages db), msg_phone = p, msg_role = r,
                 msg_content = c, msg_timestamp = t\<rparr>],
             seq_messages := Suc (seq_messages db)\<rparr>)"
  by (simp add: insert_message_def bind4_def)

lemma insert_memory_str:
  "insert_memory cv (PStr p) (PStr f) (py_of_text c) (PStr t) db =
     Inr (if \<exists>r \<in> set (memories db). mem_phone r = p \<and> mem_fact r = f
          then db\<lparr>seq_memories := Suc (seq_memories db)\<rparr>
          else db\<lparr>memories := memories db @
                      [\<lparr>mem_id = Suc (seq_memories db), mem_phone = p, mem_fact = f,
                        mem_category = c, mem_timestamp = t\<rparr>],
                  seq_memories := Suc (seq_memories db)\<rparr>)"
  by (cases c) (simp_all add: insert_memory_def bind4_def py_of_text_def)

lemma insert_summary_str:
  assumes "bind_param n = Inr v"
  shows "insert_summary cv (PStr p) (PStr s) n (PStr t) db =
     Inr (db\<lparr>summaries := summaries db @
               [\<lparr>sum_id = Suc (seq_summaries db), sum_phone = p, sum_summary = s,
                 sum_message_count = integer_affinity cv v, sum_timestamp = t\<rparr>],
             seq_summaries := Suc (seq_summaries db)\<rparr>)"
  using assms by (simp add: insert_summary_def bind4_def)

text \<open>
  C10, amended. For an input dict whose \<^verbatim>\<open>messages\<close>, \<^verbatim>\<open>memories\<close> and \<^verbatim>\<open>summaries\<close>
  values, where present, can be iterated, the import returns normally, and its result
  is the result of running the three loops over the entries that lack none of their
  keys: an entry that lacks a key is skipped on its own. An entry with all four keys
  and string values (an integer \<^verbatim>\<open>message_count\<close> that fits 64 bits) is inserted: a
  message and a summary as a new row, a fact unless its (phone, fact) pair is stored
  already. A dict without the three keys leaves the database as it is.
\<close>

theorem import_skips_entries_lacking_keys:
  "(py_iter (snapshot_entries kvs ''messages'') = Inr ms \<and>
    py_iter (snapshot_entries kvs ''memories'') = Inr fs \<and>
    py_iter (snapshot_entries kvs ''summaries'') = Inr ss \<longrightarrow>
      import_memory_from_json cv (PDict kvs) db =
        (Inr (),
         fold (import_summary cv) (filter (\<lambda>m. \<not> lacks_key summary_keys m) ss)
           (fold (import_fact cv) (filter (\<lambda>m. \<not> lacks_key fact_keys m) fs)
              (fold (import_message cv) (filter (\<lambda>m. \<not> lacks_key message_keys m) ms) db)))) \<and>
   (map_of e ''phone'' = Some (PStr p) \<and> map_of e ''role'' = Some (PStr r) \<and>
    map_of e ''content'' = Some (PStr c) \<and> map_of e ''timestamp'' = Some (PStr t) \<longrightarrow>
      import_message cv (PDict e) d =
        d\<lparr>messages := messages d @
             [\<lparr>msg_id = Suc (seq_messages d), msg_phone = p, msg_role = r,
               msg_content = c, msg_timestamp = t\<rparr>],
           seq_messages := Suc (seq_messages d)\<rparr>) \<and>
   (map_of e ''phone'' = Some (PStr p) \<and> map_of e ''fact'' = Some (PStr f) \<and>
    map_of e ''category'' = Some (PStr c) \<and> map_of e ''timestamp'' = Some (PStr t) \<longrightarrow>
      import_fact cv (PDict e) d =
        (if \<exists>x \<in> set (memories d). mem_phone x = p \<and> mem_fact x = f
         then d\<lparr>seq_memories := Suc (seq_memories d)\<rparr>
         else d\<lparr>memories := memories d @
                   [\<lparr>mem_id = Suc (seq_memories d), mem_phone = p, mem_fact = f,
                     mem_category = Some c, mem_timestamp = t\<rparr>],
                 seq_memories := Suc (seq_memories d)\<rparr>)) \<and>
   (map_of e ''phone'' = Some (PStr p) \<and> map_of e ''summary'' = Some (PStr s) \<and>
    map_of e ''message_count'' = Some (PInt n) \<and> - (2 ^ 63) \<le> n \<and> n < 2 ^ 63 \<and>
    map_of e ''timestamp'' = Some (PStr t) \<longrightarrow>
      import_summary cv (PDict e) d =
        d\<lparr>summaries := summaries d @
             [\<lparr>sum_id = Suc (seq_summaries d), sum_phone = p, sum_summary = s,
               sum_message_count = SqlInteger n, sum_timestamp = t\<rparr>],
           seq_summaries := Suc (seq_summaries d)\<rparr>) \<and>
   (map_of kvs ''messages'' = None \<and> map_of kvs ''memories'' = None \<and>
    map_of kvs ''summaries'' = None \<longrightarrow>
      import_memory_from_json cv (PDict kvs) db = (Inr (), db))"
proof (intro conjI impI)
  assume a: "py_iter (snapshot_entries kvs ''messages'') = Inr ms \<and>
    py_iter (snapshot_entries kvs ''memories'') = Inr fs \<and>
    py_iter (snapshot_entries kvs ''summaries'') = Inr ss"
  have m: "fold (import_message cv) ms db =
      fold (import_message cv) (filter (\<lambda>m. \<not> lacks_key message_keys m) ms) db" for db
    by (rule fold_skip) (rule import_message_lacks_key)
  have f: "fold (import_fact cv) fs db =
      fold (import_fact cv) (filter (\<lambda>m. \<not> lacks_key fact_keys m) fs) db" for db
    by (rule fold_skip) (rule import_fact_lacks_key)
  have s: "fold (import_summary cv) ss db =
      fold (import_summary cv) (filter (\<lambda>m. \<not> lacks_key summary_keys m) ss) db" for db
    by (rule fold_skip) (rule import_summary_lacks_key)
  have "import_memory_from_json cv (PDict kvs) db =
      (Inr (), fold (import_summary cv) ss
                 (fold (import_fact cv) fs (fold (import_message cv) ms db)))"
    using a by (intro import_memory_from_json_dict) auto
  then show "import_memory_from_json cv (PDict kvs) db =
        (Inr (),
         fold (import_summary cv) (filter (\<lambda>m. \<not> lacks_key summary_keys m) ss)
           (fold (import_fact cv) (filter (\<lambda>m. \<not> lacks_key fact_keys m) fs)
              (fold (import_message cv) (filter (\<lambda>m. \<not> lacks_key message_keys m) ms) db)))"
    using m f s by simp
next
  assume "map_of e ''phone'' = Some (PStr p) \<and> map_of e ''role'' = Some (PStr r) \<and>
    map_of e ''content'' = Some (PStr c) \<and> map_of e ''timestamp'' = Some (PStr t)"
  then have "subscript4 (PDict e) ''phone'' ''role'' ''content'' ''timestamp'' =
      Inr (PStr p, PStr r, PStr c, PStr t)"
    by (intro subscript4_dict) auto
  then show "import_message cv (PDict e) d =
        d\<lparr>messages := messages d @
             [\<lparr>msg_id = Suc (seq_messages d), msg_phone = p, msg_role = r,
               msg_content = c, msg_timestamp = t\<rparr>],
           seq_messages := Suc (seq_messages d)\<rparr>"
    by (simp add: import_message_def insert_message_str)
next
  assume "map_of e ''phone'' = Some (PStr p) \<and> map_of e ''fact'' = Some (PStr f) \<and>
    map_of e ''category'' = Some (PStr c) \<and> map_of e ''timestamp'' = Some (PStr t)"
  then have "subscript4 (PDict e) ''phone'' ''fact'' ''category'' ''timestamp'' =
      Inr (PStr p, PStr f, PStr c, PStr t)"
    by (intro subscript4_dict) auto
  then show "import_fact cv (PDict e) d =
        (if \<exists>x \<in> set (memories d). mem_phone x = p \<and> mem_fact x = f
         then d\<lparr>seq_memories := Suc (seq_memories d)\<rparr>
         else d\<lparr>memories := memories d @
                   [\<lparr>mem_id = Suc (seq_memories d), mem_phone = p, mem_fact = f,
                     mem_category = Some c, mem_timestamp = t\<rparr>],
                 seq_memories := Suc (seq_memories d)\<rparr>)"
    using insert_memory_str [of cv p f "Some c" t d]
    by (simp add: import_fact_def py_of_text_def)
next
  assume a: "map_of e ''phone'' = Some (PStr p) \<and> map_of e ''summary'' = Some (PStr s) \<and>
    map_of e ''message_count'' = Some (PInt n) \<and> - (2 ^ 63) \<le> n \<and> n < 2 ^ 63 \<and>
    map_of e ''timestamp'' = Some (PStr t)"
  then have "subscript4 (PDict e) ''phone'' ''summary'' ''message_count'' ''timestamp'' =
      Inr (PStr p, PStr s, PInt n, PStr t)"
    by (intro subscript4_dict) auto
  moreover have "bind_param (PInt n) = Inr (SqlInteger n)"
    using a by simp
  ultimately show "import_summary cv (PDict e) d =
        d\<lparr>summaries := summaries d @
             [\<lparr>sum_id = Suc (seq_summaries d), sum_phone = p, sum_summary = s,
               sum_message_count = SqlInteger n, sum_timestamp = t\<rparr>],
           seq_summaries := Suc (seq_summaries d)\<rparr>"
    by (simp add: import_summary_def insert_summary_str)
next
  assume "map_of kvs ''messages'' = None \<and> map_of kvs ''memories'' = None \<and>
    map_of kvs ''summaries'' = None"
  then have "py_iter (snapshot_entries kvs ''messages'') = Inr []"
    "py_iter (snapshot_entries kvs ''memories'') = Inr []"
    "py_iter (snapshot_entries kvs ''summaries'') = Inr []"
    by (simp_all add: snapshot_entries_def)
  then have "import_memory_from_json cv (PDict kvs) db =
      (Inr (), fold (import_summary cv) []
                 (fold (import_fact cv) [] (fold (import_message cv) [] db)))"
    by (rule import_memory_from_json_dict)
  then show "import_memory_from_json cv (PDict kvs) db = (Inr (), db)"
    by simp
qed

theorem import_skips_entries_lacking_keys_witness:
  "import_memory_from_json plain_conversions
     (PDict [(''messages'',
        PList [PDict [(''phone'', PStr ''+1555''), (''content'', PStr ''lost'')],
               PDict [(''phone'', PStr ''+1555''), (''role'', PStr ''user''),
                      (''content'', PStr ''hello''), (''timestamp'', PStr ''t1'')]])])
     init_db =
     (Inr (),
      init_db\<lparr>messages :=
          [\<lparr>msg_id = 1, msg_phone = ''+1555'', msg_role = ''user'',
            msg_content = ''hello'', msg_timestamp = ''t1''\<rparr>],
        seq_messages := 1\<rparr>) \<and>
   import_fact plain_conversions
     (PDict [(''phone'', PStr ''+1555''), (''fact'', PStr ''likes tea''),
             (''category'', PStr ''preference''), (''timestamp'', PStr ''t2'')])
     init_db =
     init_db\<lparr>memories :=
         [\<lparr>mem_id = 1, mem_phone = ''+1555'', mem_fact = ''likes tea'',
           mem_category = Some ''preference'', mem_timestamp = ''t2''\<rparr>],
       seq_memories := 1\<rparr> \<and>
   import_summary plain_conversions
     (PDict [(''phone'', PStr ''+1555''), (''summary'', PStr ''talked about tea''),
             (''message_count'', PInt 4), (''timestamp'', PStr ''t3'')])
     init_db =
     init_db\<lparr>summaries :=
         [\<lparr>sum_id = 1, sum_phone = ''+1555'', sum_summary = ''talked about tea'',
           sum_message_count = SqlInteger 4, sum_timestamp = ''t3''\<rparr>],
       seq_summaries := 1\<rparr> \<and>
   import_memory_from_json plain_conversions (PDict [(''exported_at'', PStr ''t9'')]) init_db =
     (Inr (), init_db)"
proof -
  let ?bad = "PDict [(''phone'', PStr ''+1555''), (''content'', PStr ''lost'')]"
  let ?good = "[(''phone'', PStr ''+1555''), (''role'', PStr ''user''),
                (''content'', PStr ''hello''), (''timestamp'', PStr ''t1'')]"
  let ?kvs = "[(''messages'', PList [?bad, PDict ?good])]"
  have it: "py_iter (snapshot_entries ?kvs ''messages'') = Inr [?bad, PDict ?good] \<and>
        py_iter (snapshot_entries ?kvs ''memories'') = Inr [] \<and>
        py_iter (snapshot_entries ?kvs ''summaries'') = Inr []"
    by (simp add: snapshot_entries_def)
  have flt: "filter (\<lambda>m. \<not> lacks_key message_keys m) [?bad, PDict ?good] = [PDict ?good]"
    by (simp add: message_keys_def)
  have seqs: "seq_messages init_db = 0" "messages init_db = []"
    "seq_memories init_db = 0" "memories init_db = []"
    "seq_summaries init_db = 0" "summaries init_db = []"
    by (simp_all add: init_db_def)
  have a: "import_memory_from_json plain_conversions (PDict ?kvs) init_db =
      (Inr (), fold (import_message plain_conversions) [PDict ?good] init_db)"
    using it flt import_skips_entries_lacking_keys
      [where kvs = ?kvs and ms = "[?bad, PDict ?good]" and fs = "[]" and ss = "[]"
         and cv = plain_conversions and db = init_db]
    by simp
  have b: "import_message plain_conversions (PDict ?good) init_db =
      init_db\<lparr>messages :=
          [\<lparr>msg_id = 1, msg_phone = ''+1555'', msg_role = ''user'',
            msg_content = ''hello'', msg_timestamp = ''t1''\<rparr>],
        seq_messages := 1\<rparr>"
    using import_skips_entries_lacking_keys
      [where e = ?good and p = "''+1555''" and r = "''user''" and c = "''hello''"
         and t = "''t1''" and d = init_db and cv = plain_conversions]
    by (simp add: seqs)
  have c: "import_fact plain_conversions
     (PDict [(''phone'', PStr ''+1555''), (''fact'', PStr ''likes tea''),
             (''category'', PStr ''preference''), (''timestamp'', PStr ''t2'')])
     init_db =
     init_db\<lparr>memories :=
         [\<lparr>mem_id = 1, mem_phone = ''+1555'', mem_fact = ''likes tea'',
           mem_category = Some ''preference'', mem_timestamp = ''t2''\<rparr>],
       seq_memories := 1\<rparr>"
    using import_skips_entries_lacking_keys
      [where e = "[(''phone'', PStr ''+1555''), (''fact'', PStr ''likes tea''),
             (''category'', PStr ''preference''), (''timestamp'', PStr ''t2'')]"
         and p = "''+1555''" and f = "''likes tea''" and c = "''preference''"
         and t = "''t2''" and d = init_db and cv = plain_conversions]
    by (simp add: seqs)
  have d: "import_summary plain_conversions
     (PDict [(''phone'', PStr ''+1555''), (''summary'', PStr ''talked about tea''),
             (''message_count'', PInt 4), (''timestamp'', PStr ''t3'')])
     init_db =
     init_db\<lparr>summaries :=
         [\<lparr>sum_id = 1, sum_phone = ''+1555'', sum_summary = ''talked about tea'',
           sum_message_count = SqlInteger 4, sum_timestamp = ''t3''\<rparr>],
       seq_summaries := 1\<rparr>"
    using import_skips_entries_lacking_keys
      [where e = "[(''phone'', PStr ''+1555''), (''summary'', PStr ''talked about tea''),
             (''message_count'', PInt 4), (''timestamp'', PStr ''t3'')]"
         and p = "''+1555''" and s = "''talked about tea''" and n = 4
         and t = "''t3''" and d = init_db and cv = plain_conversions]
    by (simp add: seqs)
  have e: "import_memory_from_json plain_conversions (PDict [(''exported_at'', PStr ''t9'')])
      init_db = (Inr (), init_db)"
    using import_skips_entries_lacking_keys
      [where kvs = "[(''exported_at'', PStr ''t9'')]" and cv = plain_conversions and db = init_db]
    by simp
  show ?thesis
    using a b c d e by simp
qed

text \<open>
  C10 as stated fails: a dict whose \<^verbatim>\<open>messages\<close> value is \<^verbatim>\<open>None\<close> makes the loop
  header raise \<^verbatim>\<open>TypeError\<close>, outside every \<^verbatim>\<open>try\<close>.
\<close>

theorem import_raises_counterexample:
  "fst (import_memory_from_json plain_conversions (PDict [(''messages'', PNone)]) init_db)
     = Inl TypeError"
  by (simp add: import_memory_from_json_def)

section \<open>Export followed by import\<close>

lemma import_message_export:
  "import_message cv (export_message r) d =
     d\<lparr>messages := messages d @
          [\<lparr>msg_id = Suc (seq_messages d), msg_phone = msg_phone r, msg_role = msg_role r,
            msg_content = msg_content r, msg_timestamp = msg_timestamp r\<rparr>],
        seq_messages := Suc (seq_messages d)\<rparr>"
proof -
  have "subscript4 (export_message r) ''phone'' ''role'' ''content'' ''timestamp'' =
      Inr (PStr (msg_phone r), PStr (msg_role r), PStr (msg_content r), PStr (msg_timestamp r))"
    unfolding export_message_def by (rule subscript4_dict) simp_all
  then show ?thesis
    by (simp add: import_message_def insert_message_str)
qed

lemma import_fact_export:
  "import_fact cv (export_fact r) d =
     (if \<exists>x \<in> set (memories d). mem_phone x = mem_phone r \<and> mem_fact x = mem_fact r
      then d\<lparr>seq_memories := Suc (seq_memories d)\<rparr>
      else d\<lparr>memories := memories d @
                [\<lparr>mem_id = Suc (seq_memories d), mem_phone = mem_phone r, mem_fact = mem_fact r,
                  mem_category = mem_category r, mem_timestamp = mem_timestamp r\<rparr>],
              seq_memories := Suc (seq_memories d)\<rparr>)"
proof -
  have "subscript4 (export_fact r) ''phone'' ''fact'' ''category'' ''timestamp'' =
      Inr (PStr (mem_phone r), PStr (mem_fact r), py_of_text (mem_category r),
           PStr (mem_timestamp r))"
    unfolding export_fact_def by (rule subscript4_dict) simp_all
  then show ?thesis
    by (simp add: import_fact_def insert_memory_str)
qed

lemma import_summary_export:
  assumes "bind_param (py_of_sql (sum_message_count r)) = Inr (sum_message_count r)"
      and "integer_affinity cv (sum_message_count r) = sum_message_count r"
  shows "import_summary cv (export_summary r) d =
     d\<lparr>summaries := summaries d @
          [\<lparr>sum_id = Suc (seq_summaries d), sum_phone = sum_phone r,
            sum_summary = sum_summary r, sum_message_count = sum_message_count r,
            sum_timestamp = sum_timestamp r\<rparr>],
        seq_summaries := Suc (seq_summaries d)\<rparr>"
proof -
  have "subscript4 (export_summary r) ''phone'' ''summary'' ''message_count'' ''timestamp'' =
      Inr (PStr (sum_phone r), PStr (sum_summary r), py_of_sql (sum_message_count r),
           PStr (sum_timestamp r))"
    unfolding export_summary_def by (rule subscript4_dict) simp_all
  then show ?thesis
    using assms by (simp add: import_summary_def insert_summary_str)
qed

lemma fold_import_messages:
  "map message_content (messages (fold (import_message cv) (map export_message rs) d)) =
     map message_content (messages d) @ map message_content rs \<and>
   memories (fold (import_message cv) (map export_message rs) d) = memories d \<and>
   summaries (fold (import_message cv) (map export_message rs) d) = summaries d"
  by (induction rs arbitrary: d) (simp_all add: import_message_export message_content_def)

lemma fold_import_facts:
  assumes "\<forall>r \<in> set rs. \<exists>x \<in> set (memories d). mem_phone x = mem_phone r \<and> mem_fact x = mem_fact r"
  shows "memories (fold (import_fact cv) (map export_fact rs) d) = memories d \<and>
         messages (fold (import_fact cv) (map export_fact rs) d) = messages d \<and>
         summaries (fold (import_fact cv) (map export_fact rs) d) = summaries d"
  using assms
proof (induction rs arbitrary: d)
  case Nil
  then show ?case by simp
next
  case (Cons r rs)
  let ?d = "d\<lparr>seq_memories := Suc (seq_memories d)\<rparr>"
  have step: "import_fact cv (export_fact r) d = ?d"
    using Cons.prems by (simp add: import_fact_export)
  have "\<forall>r \<in> set rs. \<exists>x \<in> set (memories ?d). mem_phone x = mem_phone r \<and> mem_fact x = mem_fact r"
    using Cons.prems by simp
  from Cons.IH [OF this] show ?case
    by (simp add: step)
qed

lemma fold_import_summaries:
  assumes "\<forall>r \<in> set rs.
      bind_param (py_of_sql (sum_message_count r)) = Inr (sum_message_count r) \<and>
      integer_affinity cv (sum_message_count r) = sum_message_count r"
  shows "map summary_content (summaries (fold (import_summary cv) (map export_summary rs) d)) =
           map summary_content (summaries d) @ map summary_content rs \<and>
         messages (fold (import_summary cv) (map export_summary rs) d) = messages d \<and>
         memories (fold (import_summary cv) (map export_summary rs) d) = memories d"
  using assms
  by (induction rs arbitrary: d) (simp_all add: import_summary_export summary_content_def)

lemma export_entries:
  "export_memory_to_json ts db = PDict kvs \<Longrightarrow>
     py_iter (snapshot_entries kvs ''messages'') =
       Inr (map export_message (sort_key msg_id (messages db))) \<and>
     py_iter (snapshot_entries kvs ''memories'') =
       Inr (map export_fact (sort_key mem_id (memories db))) \<and>
     py_iter (snapshot_entries kvs ''summaries'') =
       Inr (map export_summary (sort_key sum_id (summaries db)))"
  by (auto simp: export_memory_to_json_def snapshot_entries_def)

lemma import_of_export:
  "import_memory_from_json cv (export_memory_to_json ts db) db =
     (Inr (),
      fold (import_summary cv) (map export_summary (sort_key sum_id (summaries db)))
        (fold (import_fact cv) (map export_fact (sort_key mem_id (memories db)))
           (fold (import_message cv) (map export_message (sort_key msg_id (messages db))) db)))"
proof -
  obtain kvs where k: "export_memory_to_json ts db = PDict kvs"
    by (simp add: export_memory_to_json_def)
  show ?thesis
    unfolding k using export_entries [OF k]
    by (intro import_memory_from_json_dict) auto
qed

lemma export_import_tables:
  assumes "stored_counts_ok cv db"
  shows "fst (import_memory_from_json cv (export_memory_to_json ts db) db) = Inr () \<and>
     memories (snd (import_memory_from_json cv (export_memory_to_json ts db) db)) = memories db \<and>
     map message_content
         (messages (snd (import_memory_from_json cv (export_memory_to_json ts db) db))) =
       map message_content (messages db) @
       map message_content (sort_key msg_id (messages db)) \<and>
     map summary_content
         (summaries (snd (import_memory_from_json cv (export_memory_to_json ts db) db))) =
       map summary_content (summaries db) @
       map summary_content (sort_key sum_id (summaries db))"
proof -
  let ?M = "sort_key msg_id (messages db)"
  let ?F = "sort_key mem_id (memories db)"
  let ?S = "sort_key sum_id (summaries db)"
  let ?d1 = "fold (import_message cv) (map export_message ?M) db"
  let ?d2 = "fold (import_fact cv) (map export_fact ?F) ?d1"
  let ?d3 = "fold (import_summary cv) (map export_summary ?S) ?d2"
  have m1: "map message_content (messages ?d1) =
      map message_content (messages db) @ map message_content ?M"
    and f1: "memories ?d1 = memories db" and s1: "summaries ?d1 = summaries db"
    using fold_import_messages [of cv ?M db] by simp_all
  have "\<forall>r \<in> set ?F. \<exists>x \<in> set (memories ?d1). mem_phone x = mem_phone r \<and> mem_fact x = mem_fact r"
    by (auto simp: f1)
  then have f2: "memories ?d2 = memories ?d1" and m2: "messages ?d2 = messages ?d1"
    and s2: "summaries ?d2 = summaries ?d1"
    using fold_import_facts [of ?F ?d1 cv] by simp_all
  have "\<forall>r \<in> set ?S.
      bind_param (py_of_sql (sum_message_count r)) = Inr (sum_message_count r) \<and>
      integer_affinity cv (sum_message_count r) = sum_message_count r"
    using assms by (simp add: stored_counts_ok_def)
  then have s3: "map summary_content (summaries ?d3) =
      map summary_content (summaries ?d2) @ map summary_content ?S"
    and m3: "messages ?d3 = messages ?d2" and f3: "memories ?d3 = memories ?d2"
    using fold_import_summaries [of ?S cv ?d2] by simp_all
  show ?thesis
    unfolding import_of_export
    by (simp add: m1 f1 s1 f2 m2 s2 s3 m3 f3)
qed

lemma example_db_tables:
  "messages example_db =
     [\<lparr>msg_id = 1, msg_phone = ''+1555'', msg_role = ''user'', msg_content = ''hello'',
       msg_timestamp = ''t1''\<rparr>]"
  "memories example_db =
     [\<lparr>mem_id = 1, mem_phone = ''+1555'', mem_fact = ''likes tea'',
       mem_category = Some ''preference'', mem_timestamp = ''t2''\<rparr>]"
  "summaries example_db =
     [\<lparr>sum_id = 1, sum_phone = ''+1555'', sum_summary = ''talked about tea'',
       sum_message_count = SqlInteger 4, sum_timestamp = ''t3''\<rparr>]"
  by (simp_all add: example_db_def save_summary_def insert_summary_def bind4_def
      save_memory_str save_message_str init_db_def)

lemma example_db_counts: "stored_counts_ok plain_conversions example_db"
  by (simp add: stored_counts_ok_def example_db_tables)

text \<open>
  C5, amended. On a database whose stored \<^verbatim>\<open>message_count\<close> cells are cells the column
  can hold, exporting and then importing the snapshot into the same database returns
  normally, leaves the table of facts exactly as it was, and appends a copy of every
  message and of every summary: both tables double in length, and the multiset of the
  row contents of each is the old one taken twice.
\<close>

theorem export_import_doubles:
  assumes "stored_counts_ok cv db"
  shows "fst (import_memory_from_json cv (export_memory_to_json ts db) db) = Inr () \<and>
     memories (snd (import_memory_from_json cv (export_memory_to_json ts db) db)) = memories db \<and>
     length (messages (snd (import_memory_from_json cv (export_memory_to_json ts db) db))) =
       2 * length (messages db) \<and>
     mset (map message_content
         (messages (snd (import_memory_from_json cv (export_memory_to_json ts db) db)))) =
       mset (map message_content (messages db)) + mset (map message_content (messages db)) \<and>
     length (summaries (snd (import_memory_from_json cv (export_memory_to_json ts db) db))) =
       2 * length (summaries db) \<and>
     mset (map summary_content
         (summaries (snd (import_memory_from_json cv (export_memory_to_json ts db) db)))) =
       mset (map summary_content (summaries db)) + mset (map summary_content (summaries db))"
proof -
  let ?db' = "snd (import_memory_from_json cv (export_memory_to_json ts db) db)"
  note t = export_import_tables [OF assms, of ts]
  have m: "map message_content (messages ?db') =
      map message_content (messages db) @ map message_content (sort_key msg_id (messages db))"
    using t by simp
  have s: "map summary_content (summaries ?db') =
      map summary_content (summaries db) @ map summary_content (sort_key sum_id (summaries db))"
    using t by simp
  have lm: "length (messages ?db') = 2 * length (messages db)"
    using arg_cong [OF m, of length] by simp
  have ls: "length (summaries ?db') = 2 * length (summaries db)"
    using arg_cong [OF s, of length] by simp
  have mm: "mset (map message_content (messages ?db')) =
      mset (map message_content (messages db)) + mset (map message_content (messages db))"
    using arg_cong [OF m, of mset] by simp
  have ms: "mset (map summary_content (summaries ?db')) =
      mset (map summary_content (summaries db)) + mset (map summary_content (summaries db))"
    using arg_cong [OF s, of mset] by simp
  show ?thesis
    using t lm ls mm ms by simp
qed

theorem export_import_doubles_witness:
  "stored_counts_ok plain_conversions example_db \<and>
   memories (snd (import_memory_from_json plain_conversions
       (export_memory_to_json ''t9'' example_db) example_db)) = memories example_db \<and>
   length (messages (snd (import_memory_from_json plain_conversions
       (export_memory_to_json ''t9'' example_db) example_db))) = 2 \<and>
   length (summaries (snd (import_memory_from_json plain_conversions
       (export_memory_to_json ''t9'' example_db) example_db))) = 2"
  using example_db_counts
    export_import_doubles [OF example_db_counts, where ts = "''t9''"]
  by (simp add: example_db_tables)

text \<open>
  C5 as stated fails: with one summary stored, the summaries after the round trip are
  not the same multiset as before.
\<close>

theorem export_import_summaries_counterexample:
  "mset (map summary_content (summaries (snd (import_memory_from_json plain_conversions
       (export_memory_to_json ''t9'' example_db) example_db)))) \<noteq>
   mset (map summary_content (summaries example_db))"
proof -
  let ?db' = "snd (import_memory_from_json plain_conversions
       (export_memory_to_json ''t9'' example_db) example_db)"
  have e: "map summary_content (summaries ?db') =
      map summary_content (summaries example_db) @
      map summary_content (sort_key sum_id (summaries example_db))"
    using export_import_tables [OF example_db_counts, of "''t9''"] by simp
  have "length (map summary_content (summaries ?db')) = 2"
    unfolding e by (simp add: example_db_tables)
  then have a: "size (mset (map summary_content (summaries ?db'))) = 2"
    by simp
  have b: "size (mset (map summary_content (summaries example_db))) = 1"
    by (simp add: example_db_tables)
  show ?thesis
  proof
    assume "mset (map summary_content (summaries ?db')) =
        mset (map summary_content (summaries example_db))"
    then have "size (mset (map summary_content (summaries ?db'))) =
        size (mset (map summary_content (summaries example_db)))"
      by (rule arg_cong)
    then show False
      unfolding a b by simp
  qed
qed

section \<open>The summarizer\<close>

lemma length_get_all_history: "length (get_all_history phone db) = get_message_count phone db"
  by (simp add: get_all_history_def get_message_count_def)

lemma summarize_returns: "returned (summarize_and_extract cv sv phone db) = Inr ()"
  by (simp add: summarize_and_extract_def Let_def split: sum.splits)

lemma summarize_final_db:
  "final_db (summarize_and_extract cv sv phone db) = final_db (summarize_body cv sv phone db)"
  by (simp add: summarize_and_extract_def Let_def split: sum.splits)

lemma summarize_model_calls:
  "model_calls (summarize_and_extract cv sv phone db) = model_calls (summarize_body cv sv phone db)"
  by (simp add: summarize_and_extract_def Let_def split: sum.splits)

lemma summarize_body_few:
  assumes "get_message_count phone db < 4"
  shows "final_db (summarize_body cv sv phone db) = db \<and>
         model_calls (summarize_body cv sv phone db) = []"
  using assms
  by (simp add: summarize_body_def length_get_all_history Let_def split: option.splits)

text \<open>
  C7. For a phone number with fewer than four stored messages, the summarizer returns
  normally, sends no prompt to the model and leaves the database as it is.
\<close>

theorem summarize_below_threshold:
  assumes "get_message_count phone db < 4"
  shows "returned (summarize_and_extract cv sv phone db) = Inr () \<and>
         model_calls (summarize_and_extract cv sv phone db) = [] \<and>
         final_db (summarize_and_extract cv sv phone db) = db"
  using summarize_body_few [OF assms]
  by (simp add: summarize_returns summarize_final_db summarize_model_calls)

theorem summarize_below_threshold_witness:
  "get_message_count ''+1555'' example_db < 4 \<and>
   model_calls (summarize_and_extract plain_conversions example_services ''+1555'' example_db) = [] \<and>
   final_db (summarize_and_extract plain_conversions example_services ''+1555'' example_db) = example_db"
proof -
  have c: "get_message_count ''+1555'' example_db < 4"
    by (simp add: get_message_count_def messages_of_def example_db_tables)
  show ?thesis
    using c summarize_below_threshold [OF c, of plain_conversions example_services]
    by simp
qed

lemma summarize_body_model_failure:
  assumes "model_result sv (summary_prompt phone db) = Inl e"
  shows "final_db (summarize_body cv sv phone db) = db"
  using assms
  by (simp add: summarize_body_def summary_prompt_def Let_def split: option.splits)

lemma summarize_body_setup_failure:
  assumes "genai_setup sv = Some e"
  shows "final_db (summarize_body cv sv phone db) = db"
  using assms by (simp add: summarize_body_def)

lemma store_result_not_dict:
  assumes "dict_get result ''summary'' PNone = Inl e"
  shows "store_result cv clk phone n result db = (Inl e, db)"
  using assms by (simp add: store_result_def)

lemma summarize_body_not_dict:
  assumes "model_result sv (summary_prompt phone db) = Inr v"
      and "dict_get v ''summary'' PNone = Inl e"
  shows "final_db (summarize_body cv sv phone db) = db"
  using assms
  by (simp add: summarize_body_def summary_prompt_def Let_def store_result_not_dict
      split: option.splits)

text \<open>
  C6, amended. When setting up the model client raises, when the model call raises, when
  the answer starts with a fence but has no second line, when \<^verbatim>\<open>json.loads\<close> raises, or
  when the parsed value is no JSON object, the summarizer returns normally and the
  database is as it was: no Message, Fact or Summary row is written.
\<close>

theorem summarize_failure_writes_nothing:
  assumes "genai_setup sv = Some e \<or>
     generate_content sv (summary_prompt phone db) = Inl e \<or>
     (\<exists>raw. generate_content sv (summary_prompt phone db) = Inr raw \<and>
            clean_markdown (py_strip raw) = Inl e) \<or>
     (\<exists>raw cleaned. generate_content sv (summary_prompt phone db) = Inr raw \<and>
            clean_markdown (py_strip raw) = Inr cleaned \<and> json_loads sv cleaned = Inl e) \<or>
     (\<exists>raw cleaned v. generate_content sv (summary_prompt phone db) = Inr raw \<and>
            clean_markdown (py_strip raw) = Inr cleaned \<and> json_loads sv cleaned = Inr v \<and>
            (\<forall>kvs. v \<noteq> PDict kvs))"
  shows "returned (summarize_and_extract cv sv phone db) = Inr () \<and>
         final_db (summarize_and_extract cv sv phone db) = db"
proof -
  have "final_db (summarize_body cv sv phone db) = db"
    using assms
  proof (elim disjE exE conjE)
    assume "genai_setup sv = Some e"
    then show ?thesis by (rule summarize_body_setup_failure)
  next
    assume "generate_content sv (summary_prompt phone db) = Inl e"
    then have "model_result sv (summary_prompt phone db) = Inl e"
      by (simp add: model_result_def)
    then show ?thesis by (rule summarize_body_model_failure)
  next
    fix raw
    assume "generate_content sv (summary_prompt phone db) = Inr raw"
      and "clean_markdown (py_strip raw) = Inl e"
    then have "model_result sv (summary_prompt phone db) = Inl e"
      by (simp add: model_result_def)
    then show ?thesis by (rule summarize_body_model_failure)
  next
    fix raw cleaned
    assume "generate_content sv (summary_prompt phone db) = Inr raw"
      and "clean_markdown (py_strip raw) = Inr cleaned" and "json_loads sv cleaned = Inl e"
    then have "model_result sv (summary_prompt phone db) = Inl e"
      by (simp add: model_result_def)
    then show ?thesis by (rule summarize_body_model_failure)
  next
    fix raw cleaned v
    assume "generate_content sv (summary_prompt phone db) = Inr raw"
      and "clean_markdown (py_strip raw) = Inr cleaned" and "json_loads sv cleaned = Inr v"
      and nd: "\<forall>kvs. v \<noteq> PDict kvs"
    then have m: "model_result sv (summary_prompt phone db) = Inr v"
      by (simp add: model_result_def)
    have "dict_get v ''summary'' PNone = Inl AttributeError"
      using nd by (cases v) auto
    with m show ?thesis by (rule summarize_body_not_dict)
  qed
  then show ?thesis
    by (simp add: summarize_returns summarize_final_db)
qed

lemma four_messages_count: "get_message_count ''+1555'' four_messages_db = 4"
  by (simp add: four_messages_db_def get_message_count_def messages_of_def save_message_str
      init_db_def)

theorem summarize_failure_writes_nothing_witness:
  "generate_content failing_services (summary_prompt ''+1555'' four_messages_db) =
     Inl (ExternalError ''timeout'') \<and>
   get_message_count ''+1555'' four_messages_db = 4 \<and>
   returned (summarize_and_extract plain_conversions failing_services ''+1555'' four_messages_db) =
     Inr () \<and>
   final_db (summarize_and_extract plain_conversions failing_services ''+1555'' four_messages_db) =
     four_messages_db"
proof -
  have g: "generate_content failing_services (summary_prompt ''+1555'' four_messages_db) =
     Inl (ExternalError ''timeout'')"
    by (simp add: failing_services_def)
  show ?thesis
    using g four_messages_count
      summarize_failure_writes_nothing [where sv = failing_services and phone = "''+1555''"
        and db = four_messages_db and e = "ExternalError ''timeout''" and cv = plain_conversions]
    by simp
qed

lemma save_facts_strings:
  "save_facts cv clk k phone (map PStr fs) db =
     save_texts cv clk k phone (map (\<lambda>f. (f, ''extracted'')) fs) db"
  by (induction fs arbitrary: k db) simp_all

lemma save_actions_strings:
  "save_actions cv clk k phone (map PStr acts) db =
     save_texts cv clk k phone (map (\<lambda>a. (''ACTION: '' @ a, ''action_item'')) acts) db"
  by (induction acts arbitrary: k db) simp_all

lemma save_texts_append:
  "save_texts cv clk k phone (xs @ ys) db =
     save_texts cv clk (k + length xs) phone ys (save_texts cv clk k phone xs db)"
  by (induction xs arbitrary: k db) auto

lemma save_memory_other_tables:
  "messages (snd (save_memory cv ts (PStr p) (PStr f) (PStr c) db)) = messages db \<and>
   summaries (snd (save_memory cv ts (PStr p) (PStr f) (PStr c) db)) = summaries db"
  by (simp add: save_memory_str)

lemma fact_rows_other_text:
  assumes "u \<noteq> t"
  shows "fact_rows p u (snd (save_memory cv ts (PStr p) (PStr t) (PStr c) db)) = fact_rows p u db"
  using assms by (auto simp: save_memory_str fact_rows_def)

lemma fact_rows_same_text:
  assumes "fact_rows p t db \<noteq> []"
  shows "fact_rows p u (snd (save_memory cv ts (PStr p) (PStr t) (PStr c) db)) = fact_rows p u db"
  using save_memory_again [OF assms, of cv ts c] by (simp add: fact_rows_def)

lemma fact_rows_fresh_text:
  assumes "fact_rows p t db = []"
  shows "fact_rows p t (snd (save_memory cv ts (PStr p) (PStr t) (PStr c) db)) =
     [\<lparr>mem_id = Suc (seq_memories db), mem_phone = p, mem_fact = t,
       mem_category = Some c, mem_timestamp = ts\<rparr>]"
  using assms save_memory_fresh [OF assms, of cv ts c] by (simp add: fact_rows_def)

lemma save_texts_invariant:
  "db_invariant db \<Longrightarrow> db_invariant (save_texts cv clk k phone items db)"
  by (induction items arbitrary: k db) (auto simp: save_memory_invariant)

lemma save_texts_other_tables:
  "messages (save_texts cv clk k phone items db) = messages db \<and>
   summaries (save_texts cv clk k phone items db) = summaries db"
  by (induction items arbitrary: k db) (auto simp: save_memory_other_tables)

lemma save_texts_keeps_row:
  assumes "fact_rows phone t db = [r]"
  shows "fact_rows phone t (save_texts cv clk k phone items db) = [r]"
  using assms
proof (induction items arbitrary: k db)
  case Nil
  then show ?case by simp
next
  case (Cons item items)
  obtain u c where item: "item = (u, c)" by (cases item)
  let ?db1 = "snd (save_memory cv (clk k) (PStr phone) (PStr u) (PStr c) db)"
  have "fact_rows phone t ?db1 = [r]"
  proof (cases "u = t")
    case True
    then have "fact_rows phone u db \<noteq> []"
      using Cons.prems by simp
    then show ?thesis
      using Cons.prems by (simp add: fact_rows_same_text)
  next
    case False
    then show ?thesis
      using Cons.prems by (simp add: fact_rows_other_text)
  qed
  then show ?case
    using Cons.IH by (simp add: item)
qed

lemma save_texts_fresh_category:
  assumes "fact_rows phone t db = []" and "map_of items t = Some c"
  shows "\<exists>r. fact_rows phone t (save_texts cv clk k phone items db) = [r] \<and>
             mem_category r = Some c"
  using assms
proof (induction items arbitrary: k db)
  case Nil
  then show ?case by simp
next
  case (Cons item items)
  obtain u d where item: "item = (u, d)" by (cases item)
  let ?db1 = "snd (save_memory cv (clk k) (PStr phone) (PStr u) (PStr d) db)"
  show ?case
  proof (cases "u = t")
    case True
    then have cd: "d = c"
      using Cons.prems(2) by (simp add: item)
    have "fact_rows phone t ?db1 =
        [\<lparr>mem_id = Suc (seq_memories db), mem_phone = phone, mem_fact = t,
          mem_category = Some c, mem_timestamp = clk k\<rparr>]"
      using Cons.prems(1) True cd by (simp add: fact_rows_fresh_text)
    then have "fact_rows phone t (save_texts cv clk (Suc k) phone items ?db1) =
        [\<lparr>mem_id = Suc (seq_memories db), mem_phone = phone, mem_fact = t,
          mem_category = Some c, mem_timestamp = clk k\<rparr>]"
      by (rule save_texts_keeps_row)
    then show ?thesis
      by (simp add: item)
  next
    case False
    then have "fact_rows phone t ?db1 = []"
      using Cons.prems(1) by (simp add: fact_rows_other_text)
    moreover have "map_of items t = Some c"
      using Cons.prems(2) False by (simp add: item)
    ultimately show ?thesis
      using Cons.IH by (simp add: item)
  qed
qed

lemma save_texts_has_row:
  assumes "db_invariant db" and "t \<in> fst ` set items"
  shows "\<exists>r. fact_rows phone t (save_texts cv clk k phone items db) = [r]"
proof (cases "fact_rows phone t db")
  case Nil
  obtain c where "map_of items t = Some c"
    using assms(2) by (metis domD dom_map_of_conv_image_fst)
  with Nil show ?thesis
    using save_texts_fresh_category by blast
next
  case (Cons r rs)
  have "length (fact_rows phone t db) \<le> 1"
    using assms(1) by (rule fact_rows_le_1)
  with Cons have "fact_rows phone t db = [r]" by simp
  then show ?thesis
    using save_texts_keeps_row by blast
qed

lemma save_texts_count:
  "length (memories (save_texts cv clk k phone items db)) =
     length (memories db) + card {t \<in> fst ` set items. fact_rows phone t db = []}"
proof (induction items arbitrary: k db)
  case Nil
  then show ?case by simp
next
  case (Cons item items)
  obtain u d where item: "item = (u, d)" by (cases item)
  let ?db1 = "snd (save_memory cv (clk k) (PStr phone) (PStr u) (PStr d) db)"
  let ?R = "fst ` set items"
  have fin: "finite {t \<in> ?R. fact_rows phone t ?db1 = []}" by simp
  show ?case
  proof (cases "fact_rows phone u db = []")
    case True
    have len: "length (memories ?db1) = Suc (length (memories db))"
      using save_memory_fresh [OF True, of cv "clk k" d] by simp
    have rows: "fact_rows phone t ?db1 = [] \<longleftrightarrow> fact_rows phone t db = [] \<and> t \<noteq> u" for t
      using True by (cases "t = u") (simp_all add: fact_rows_fresh_text fact_rows_other_text)
    have "{t \<in> fst ` set (item # items). fact_rows phone t db = []} =
        insert u {t \<in> ?R. fact_rows phone t ?db1 = []}"
      using True by (auto simp: item rows)
    moreover have "u \<notin> {t \<in> ?R. fact_rows phone t ?db1 = []}"
      by (simp add: rows)
    ultimately have "card {t \<in> fst ` set (item # items). fact_rows phone t db = []} =
        Suc (card {t \<in> ?R. fact_rows phone t ?db1 = []})"
      using fin by simp
    then show ?thesis
      using Cons.IH [of "Suc k" ?db1] len by (simp add: item)
  next
    case False
    have len: "length (memories ?db1) = length (memories db)"
      using save_memory_again [OF False, of cv "clk k" d] by simp
    have rows: "fact_rows phone t ?db1 = fact_rows phone t db" for t
      using False by (rule fact_rows_same_text)
    have "{t \<in> fst ` set (item # items). fact_rows phone t db = []} =
        {t \<in> ?R. fact_rows phone t ?db1 = []}"
      using False by (auto simp: item rows)
    then show ?thesis
      using Cons.IH [of "Suc k" ?db1] len by (simp add: item)
  qed
qed

lemma store_result_strings:
  assumes "map_of kvs ''summary'' = Some (PStr s)"
      and "map_of kvs ''facts'' = Some (PList (map PStr fs))"
      and "map_of kvs ''action_items'' = Some (PList (map PStr acts))"
      and "int n < 2 ^ 63"
  shows "store_result cv clk phone n (PDict kvs) db =
     (Inr (),
      save_texts cv clk (if s = [] then 0 else 1) phone
        (map (\<lambda>f. (f, ''extracted'')) fs @
         map (\<lambda>a. (''ACTION: '' @ a, ''action_item'')) acts)
        (if s = [] then db
         else db\<lparr>summaries := summaries db @
                    [\<lparr>sum_id = Suc (seq_summaries db), sum_phone = phone, sum_summary = s,
                      sum_message_count = SqlInteger (int n), sum_timestamp = clk 0\<rparr>],
                  seq_summaries := Suc (seq_summaries db)\<rparr>))"
proof -
  have b: "bind_param (PInt (int n)) = Inr (SqlInteger (int n))"
    using assms(4) by simp
  have ins: "insert_summary cv (PStr phone) (PStr s) (PInt (int n)) (PStr (clk 0)) db =
     Inr (db\<lparr>summaries := summaries db @
               [\<lparr>sum_id = Suc (seq_summaries db), sum_phone = phone, sum_summary = s,
                 sum_message_count = SqlInteger (int n), sum_timestamp = clk 0\<rparr>],
             seq_summaries := Suc (seq_summaries db)\<rparr>)"
    using insert_summary_str [OF b, of cv phone s "clk 0" db] by simp
  show ?thesis
    using assms(1-3)
    by (simp add: store_result_def save_summary_def ins save_facts_strings
        save_actions_strings save_texts_append)
qed

lemma summarize_body_stores:
  assumes "genai_setup sv = None"
      and "4 \<le> get_message_count phone db"
      and "model_result sv (summary_prompt phone db) = Inr result"
  shows "final_db (summarize_body cv sv phone db) =
           snd (store_result cv (clock sv) phone (get_message_count phone db) result db) \<and>
         model_calls (summarize_body cv sv phone db) = [summary_prompt phone db]"
  using assms
  by (simp add: summarize_body_def summary_prompt_def length_get_all_history Let_def
      split: prod.splits)

lemma map_of_tagged:
  "map_of (map (\<lambda>t. (t, c)) ts @ rest) t = (if t \<in> set ts then Some c else map_of rest t)"
  by (induction ts) auto

lemma map_of_tagged_last:
  "map_of (map (\<lambda>t. (t, c)) ts) t = (if t \<in> set ts then Some c else None)"
  by (induction ts) auto

lemma summary_row_keeps_facts:
  "fact_rows phone t (db\<lparr>summaries := ss, seq_summaries := q\<rparr>) = fact_rows phone t db"
  by (simp add: fact_rows_def)

lemma summary_row_invariant:
  assumes "db_invariant db"
  shows "db_invariant (db\<lparr>summaries := summaries db @
                    [\<lparr>sum_id = Suc (seq_summaries db), sum_phone = p, sum_summary = s,
                      sum_message_count = SqlInteger n, sum_timestamp = t\<rparr>],
                  seq_summaries := Suc (seq_summaries db)\<rparr>)"
  using assms by (simp add: db_invariant_def ids_ok_snoc ids_ok_Suc)

lemma summarize_final_db_strings:
  assumes "genai_setup sv = None"
      and "4 \<le> get_message_count phone db"
      and "int (get_message_count phone db) < 2 ^ 63"
      and "generate_content sv (summary_prompt phone db) = Inr raw"
      and "clean_markdown (py_strip raw) = Inr cleaned"
      and "json_loads sv cleaned = Inr (PDict kvs)"
      and "map_of kvs ''summary'' = Some (PStr s)"
      and "map_of kvs ''facts'' = Some (PList (map PStr fs))"
      and "map_of kvs ''action_items'' = Some (PList (map PStr acts))"
  shows "final_db (summarize_and_extract cv sv phone db) =
           save_texts cv (clock sv) (if s = [] then 0 else 1) phone
             (map (\<lambda>f. (f, ''extracted'')) fs @
              map (\<lambda>t. (t, ''action_item'')) (map ((@) ''ACTION: '') acts))
             (if s = [] then db
              else db\<lparr>summaries := summaries db @
                    [\<lparr>sum_id = Suc (seq_summaries db), sum_phone = phone, sum_summary = s,
                      sum_message_count = SqlInteger (int (get_message_count phone db)),
                      sum_timestamp = clock sv 0\<rparr>],
                  seq_summaries := Suc (seq_summaries db)\<rparr>) \<and>
         model_calls (summarize_and_extract cv sv phone db) = [summary_prompt phone db]"
proof -
  have m: "model_result sv (summary_prompt phone db) = Inr (PDict kvs)"
    using assms(4-6) by (simp add: model_result_def)
  show ?thesis
    using summarize_body_stores [OF assms(1,2) m, of cv]
      store_result_strings [OF assms(7-9) assms(3), of cv "clock sv" phone db]
    by (simp add: comp_def summarize_final_db summarize_model_calls)
qed

text \<open>
  C2, amended. Take a run in which the model client is set up, the caller has at least
  four stored messages, the model call returns, the clean-up and \<^verbatim>\<open>json.loads\<close> succeed,
  and the parsed object has a string under \<^verbatim>\<open>summary\<close> and lists of strings under \<^verbatim>\<open>facts\<close>
  and \<^verbatim>\<open>action_items\<close>. The run returns normally after one model call and leaves the
  messages as they were. It appends one Summary row, carrying the number of stored
  messages, when the summary is not the empty string, and none when it is. Afterwards
  every entry of \<^verbatim>\<open>facts\<close> has exactly one Fact row, of category \<^verbatim>\<open>extracted\<close> if the caller
  had no such Fact before; every entry of \<^verbatim>\<open>action_items\<close> has exactly one Fact row for its
  text prefixed with \<^verbatim>\<open>ACTION: \<close>, of category \<^verbatim>\<open>action_item\<close> if the caller had no such Fact
  before and the prefixed text is not among \<^verbatim>\<open>facts\<close>. The number of Fact rows added is the
  number of distinct texts among them that the caller had not stored before.
\<close>

theorem summarize_stores_result:
  assumes inv: "db_invariant db"
      and cfg: "genai_setup sv = None"
      and cnt: "4 \<le> get_message_count phone db"
      and rng: "int (get_message_count phone db) < 2 ^ 63"
      and gen: "generate_content sv (summary_prompt phone db) = Inr raw"
      and cln: "clean_markdown (py_strip raw) = Inr cleaned"
      and jsn: "json_loads sv cleaned = Inr (PDict kvs)"
      and k1: "map_of kvs ''summary'' = Some (PStr s)"
      and k2: "map_of kvs ''facts'' = Some (PList (map PStr fs))"
      and k3: "map_of kvs ''action_items'' = Some (PList (map PStr acts))"
      and run: "run = summarize_and_extract cv sv phone db"
  shows "returned run = Inr () \<and>
         model_calls run = [summary_prompt phone db] \<and>
         messages (final_db run) = messages db \<and>
         summaries (final_db run) =
           summaries db @
           (if s = [] then []
            else [\<lparr>sum_id = Suc (seq_summaries db), sum_phone = phone, sum_summary = s,
                   sum_message_count = SqlInteger (int (get_message_count phone db)),
                   sum_timestamp = clock sv 0\<rparr>]) \<and>
         (\<forall>f \<in> set fs. \<exists>r. fact_rows phone f (final_db run) = [r] \<and>
              (fact_rows phone f db = [] \<longrightarrow> mem_category r = Some ''extracted'')) \<and>
         (\<forall>a \<in> set acts. \<exists>r. fact_rows phone (''ACTION: '' @ a) (final_db run) = [r] \<and>
              (fact_rows phone (''ACTION: '' @ a) db = [] \<and> ''ACTION: '' @ a \<notin> set fs \<longrightarrow>
                 mem_category r = Some ''action_item'')) \<and>
         length (memories (final_db run)) =
           length (memories db) +
           card {t \<in> set fs \<union> (\<lambda>a. ''ACTION: '' @ a) ` set acts. fact_rows phone t db = []}"
proof -
  let ?n = "get_message_count phone db"
  let ?k = "if s = [] then 0 else 1"
  let ?items = "map (\<lambda>f. (f, ''extracted'')) fs @
                map (\<lambda>t. (t, ''action_item'')) (map ((@) ''ACTION: '') acts)"
  let ?db1 = "if s = [] then db
              else db\<lparr>summaries := summaries db @
                    [\<lparr>sum_id = Suc (seq_summaries db), sum_phone = phone, sum_summary = s,
                      sum_message_count = SqlInteger (int ?n), sum_timestamp = clock sv 0\<rparr>],
                  seq_summaries := Suc (seq_summaries db)\<rparr>"
  let ?db' = "save_texts cv (clock sv) ?k phone ?items ?db1"
  have fin: "final_db run = ?db'"
    and c2: "model_calls run = [summary_prompt phone db]"
    using summarize_final_db_strings [OF cfg cnt rng gen cln jsn k1 k2 k3, of cv]
    by (simp_all add: run)
  have inv1: "db_invariant ?db1"
    using inv by (simp add: summary_row_invariant)
  have rows1: "fact_rows phone t ?db1 = fact_rows phone t db" for t
    by (simp add: summary_row_keeps_facts)
  have mem1: "memories ?db1 = memories db"
    by simp
  have keys: "fst ` set ?items = set fs \<union> (\<lambda>a. ''ACTION: '' @ a) ` set acts"
    by (simp add: image_Un image_image)
  have c1: "returned run = Inr ()"
    by (simp add: run summarize_returns)
  have c3: "messages (final_db run) = messages db"
    unfolding fin by (simp add: save_texts_other_tables)
  have c4: "summaries (final_db run) =
           summaries db @
           (if s = [] then []
            else [\<lparr>sum_id = Suc (seq_summaries db), sum_phone = phone, sum_summary = s,
                   sum_message_count = SqlInteger (int ?n), sum_timestamp = clock sv 0\<rparr>])"
    unfolding fin by (simp add: save_texts_other_tables)
  have c5: "\<exists>r. fact_rows phone f (final_db run) = [r] \<and>
              (fact_rows phone f db = [] \<longrightarrow> mem_category r = Some ''extracted'')"
    if f: "f \<in> set fs" for f
  proof (cases "fact_rows phone f db = []")
    case True
    have "map_of ?items f = Some ''extracted''"
      using f by (simp only: map_of_tagged if_True)
    moreover have "fact_rows phone f ?db1 = []"
      using True rows1 by simp
    ultimately show ?thesis
      unfolding fin using save_texts_fresh_category by blast
  next
    case False
    have "f \<in> fst ` set ?items"
      using f keys by simp
    then show ?thesis
      unfolding fin using False save_texts_has_row [OF inv1] by blast
  qed
  have c6: "\<exists>r. fact_rows phone (''ACTION: '' @ a) (final_db run) = [r] \<and>
              (fact_rows phone (''ACTION: '' @ a) db = [] \<and> ''ACTION: '' @ a \<notin> set fs \<longrightarrow>
                 mem_category r = Some ''action_item'')"
    if a: "a \<in> set acts" for a
  proof (cases "fact_rows phone (''ACTION: '' @ a) db = [] \<and> ''ACTION: '' @ a \<notin> set fs")
    case True
    have "''ACTION: '' @ a \<in> set (map ((@) ''ACTION: '') acts)"
      using a by simp
    then have "map_of ?items (''ACTION: '' @ a) = Some ''action_item''"
      using True by (simp only: map_of_tagged map_of_tagged_last if_True if_False)
    moreover have "fact_rows phone (''ACTION: '' @ a) ?db1 = []"
      using True rows1 by simp
    ultimately show ?thesis
      unfolding fin using save_texts_fresh_category by blast
  next
    case False
    have "''ACTION: '' @ a \<in> fst ` set ?items"
      using a keys by blast
    then show ?thesis
      unfolding fin using False save_texts_has_row [OF inv1] by blast
  qed
  have c7: "length (memories (final_db run)) =
           length (memories db) +
           card {t \<in> set fs \<union> (\<lambda>a. ''ACTION: '' @ a) ` set acts. fact_rows phone t db = []}"
    unfolding fin save_texts_count [of cv "clock sv" ?k phone ?items ?db1] keys
    by (simp only: rows1 mem1)
  show ?thesis
    using c1 c2 c3 c4 c5 c6 c7 by blast
qed

lemma four_messages_invariant: "db_invariant four_messages_db"
  unfolding four_messages_db_def by (rule save_messages_invariant [OF db_invariant_init])

lemma four_messages_tables:
  "memories four_messages_db = []" "summaries four_messages_db = []"
  "seq_summaries four_messages_db = 0"
  by (simp_all add: four_messages_db_def save_message_str init_db_def)

lemma example_answer_cleaned:
  "clean_markdown (py_strip (''```json'' @ [newline] @ example_json @ [newline] @ ''```'')) =
     Inr example_json"
  by code_simp

theorem summarize_stores_result_witness:
  "db_invariant four_messages_db \<and>
   get_message_count ''+1555'' four_messages_db = 4 \<and>
   summaries (final_db (summarize_and_extract plain_conversions example_services ''+1555''
                four_messages_db)) =
     [\<lparr>sum_id = 1, sum_phone = ''+1555'', sum_summary = ''x'',
       sum_message_count = SqlInteger 4, sum_timestamp = ''t5''\<rparr>] \<and>
   (\<exists>r. fact_rows ''+1555'' ''a''
          (final_db (summarize_and_extract plain_conversions example_services ''+1555''
             four_messages_db)) = [r] \<and>
        mem_category r = Some ''extracted'') \<and>
   (\<exists>r. fact_rows ''+1555'' ''ACTION: call Bob''
          (final_db (summarize_and_extract plain_conversions example_services ''+1555''
             four_messages_db)) = [r] \<and>
        mem_category r = Some ''action_item'') \<and>
   length (memories (final_db (summarize_and_extract plain_conversions example_services ''+1555''
                       four_messages_db))) = 2"
proof -
  let ?run = "summarize_and_extract plain_conversions example_services ''+1555'' four_messages_db"
  have cfg: "genai_setup example_services = None"
    by (simp add: example_services_def)
  have cnt: "4 \<le> get_message_count ''+1555'' four_messages_db"
    and rng: "int (get_message_count ''+1555'' four_messages_db) < 2 ^ 63"
    by (simp_all add: four_messages_count)
  have gen: "generate_content example_services (summary_prompt ''+1555'' four_messages_db) =
      Inr (''```json'' @ [newline] @ example_json @ [newline] @ ''```'')"
    by (simp add: example_services_def)
  have jsn: "json_loads example_services example_json =
      Inr (PDict [(''summary'', PStr ''x''), (''facts'', PList [PStr ''a'']),
                  (''action_items'', PList [PStr ''call Bob''])])"
    by (simp add: example_services_def)
  have k1: "map_of [(''summary'', PStr ''x''), (''facts'', PList [PStr ''a'']),
                    (''action_items'', PList [PStr ''call Bob''])] ''summary'' = Some (PStr ''x'')"
    and k2: "map_of [(''summary'', PStr ''x''), (''facts'', PList [PStr ''a'']),
                    (''action_items'', PList [PStr ''call Bob''])] ''facts'' =
             Some (PList (map PStr [''a'']))"
    and k3: "map_of [(''summary'', PStr ''x''), (''facts'', PList [PStr ''a'']),
                    (''action_items'', PList [PStr ''call Bob''])] ''action_items'' =
             Some (PList (map PStr [''call Bob'']))"
    by simp_all
  have clk: "clock example_services 0 = ''t5''"
    by (simp add: example_services_def)
  have fresh: "fact_rows ''+1555'' t four_messages_db = []" for t
    by (simp add: fact_rows_def four_messages_tables)
  have new: "{t \<in> set [''a''] \<union> (\<lambda>a. ''ACTION: '' @ a) ` set [''call Bob''].
               fact_rows ''+1555'' t four_messages_db = []} = {''a'', ''ACTION: call Bob''}"
    by (auto simp: fresh)
  have "card {''a'', ''ACTION: call Bob''} = 2"
    by simp
  then show ?thesis
    using summarize_stores_result [OF four_messages_invariant cfg cnt rng gen
        example_answer_cleaned jsn k1 k2 k3, of ?run plain_conversions]
    unfolding new
    by (simp add: four_messages_invariant four_messages_count four_messages_tables clk fresh)
qed

text \<open>
  C2 as stated fails: for a parsed answer with an empty summary and the same fact twice,
  the run writes no Summary row and one Fact row for the two entries.
\<close>

theorem summarize_empty_summary_counterexample:
  "summaries (final_db (summarize_and_extract plain_conversions repeated_services ''+1555''
                four_messages_db)) = [] \<and>
   length (memories (final_db (summarize_and_extract plain_conversions repeated_services ''+1555''
                       four_messages_db))) = 1"
proof -
  have cfg: "genai_setup repeated_services = None"
    by (simp add: repeated_services_def)
  have cnt: "4 \<le> get_message_count ''+1555'' four_messages_db"
    and rng: "int (get_message_count ''+1555'' four_messages_db) < 2 ^ 63"
    by (simp_all add: four_messages_count)
  have gen: "generate_content repeated_services (summary_prompt ''+1555'' four_messages_db) =
      Inr repeated_json"
    by (simp add: repeated_services_def)
  have cln: "clean_markdown (py_strip repeated_json) = Inr repeated_json"
    by code_simp
  have jsn: "json_loads repeated_services repeated_json =
      Inr (PDict [(''summary'', PStr []), (''facts'', PList [PStr ''a'', PStr ''a'']),
                  (''action_items'', PList [])])"
    by (simp add: repeated_services_def)
  have k1: "map_of [(''summary'', PStr []), (''facts'', PList [PStr ''a'', PStr ''a'']),
                    (''action_items'', PList [])] ''summary'' = Some (PStr [])"
    and k2: "map_of [(''summary'', PStr []), (''facts'', PList [PStr ''a'', PStr ''a'']),
                    (''action_items'', PList [])] ''facts'' =
             Some (PList (map PStr [''a'', ''a'']))"
    and k3: "map_of [(''summary'', PStr []), (''facts'', PList [PStr ''a'', PStr ''a'']),
                    (''action_items'', PList [])] ''action_items'' =
             Some (PList (map PStr []))"
    by simp_all
  have fresh: "fact_rows ''+1555'' t four_messages_db = []" for t
    by (simp add: fact_rows_def four_messages_tables)
  have fin: "final_db (summarize_and_extract plain_conversions repeated_services ''+1555''
                four_messages_db) =
      save_texts plain_conversions (clock repeated_services) 0 ''+1555''
        [(''a'', ''extracted''), (''a'', ''extracted'')] four_messages_db"
    using summarize_final_db_strings [OF cfg cnt rng gen cln jsn k1 k2 k3, of plain_conversions]
    by simp
  have new: "{t \<in> fst ` set [(''a'', ''extracted''), (''a'', ''extracted'')].
           fact_rows ''+1555'' t four_messages_db = []} = {''a''}"
    by (auto simp: fresh)
  have a: "summaries (final_db (summarize_and_extract plain_conversions repeated_services ''+1555''
                four_messages_db)) = []"
    unfolding fin by (simp only: save_texts_other_tables four_messages_tables)
  have b: "length (memories (final_db (summarize_and_extract plain_conversions repeated_services
                ''+1555'' four_messages_db))) = 1"
    unfolding fin save_texts_count new by (simp add: four_messages_tables)
  show ?thesis
    using a b by (rule conjI)
qed

text \<open>
  C6 as stated fails: an answer that parses to an object with a number under \<^verbatim>\<open>facts\<close>
  is not the expected JSON, and the loop over that number raises after the Summary has
  been written. The run returns normally, and the database, which held no Summary
  before, holds one.
\<close>

theorem summarize_wrong_shape_counterexample:
  "json_loads ill_typed_services ill_typed_json =
     Inr (PDict [(''summary'', PStr ''x''), (''facts'', PInt 5)]) \<and>
   summaries four_messages_db = [] \<and>
   returned (summarize_and_extract plain_conversions ill_typed_services ''+1555''
               four_messages_db) = Inr () \<and>
   summaries (final_db (summarize_and_extract plain_conversions ill_typed_services ''+1555''
                four_messages_db)) =
     [\<lparr>sum_id = 1, sum_phone = ''+1555'', sum_summary = ''x'',
       sum_message_count = SqlInteger 4, sum_timestamp = ''t5''\<rparr>]"
proof -
  have cln: "clean_markdown (py_strip ill_typed_json) = Inr ill_typed_json"
    by code_simp
  have m: "model_result ill_typed_services (summary_prompt ''+1555'' four_messages_db) =
      Inr (PDict [(''summary'', PStr ''x''), (''facts'', PInt 5)])"
    by (simp add: model_result_def ill_typed_services_def cln)
  have b: "bind_param (PInt 4) = Inr (SqlInteger 4)"
    by simp
  have st: "store_result plain_conversions (clock ill_typed_services) ''+1555'' 4
      (PDict [(''summary'', PStr ''x''), (''facts'', PInt 5)]) four_messages_db =
      (Inl TypeError,
       four_messages_db\<lparr>summaries := summaries four_messages_db @
               [\<lparr>sum_id = Suc (seq_summaries four_messages_db), sum_phone = ''+1555'',
                 sum_summary = ''x'', sum_message_count = integer_affinity plain_conversions (SqlInteger 4),
                 sum_timestamp = ''t5''\<rparr>],
             seq_summaries := Suc (seq_summaries four_messages_db)\<rparr>)"
    using insert_summary_str [OF b, of plain_conversions "''+1555''" "''x''" "''t5''" four_messages_db]
    by (simp add: store_result_def save_summary_def ill_typed_services_def)
  have cfg: "genai_setup ill_typed_services = None"
    by (simp add: ill_typed_services_def)
  have "final_db (summarize_body plain_conversions ill_typed_services ''+1555'' four_messages_db) =
      snd (store_result plain_conversions (clock ill_typed_services) ''+1555''
        (get_message_count ''+1555'' four_messages_db)
        (PDict [(''summary'', PStr ''x''), (''facts'', PInt 5)]) four_messages_db)"
    using summarize_body_stores [OF cfg _ m, of plain_conversions]
    by (simp add: four_messages_count)
  then have fin: "returned (summarize_and_extract plain_conversions ill_typed_services ''+1555''
               four_messages_db) = Inr () \<and>
      summaries (final_db (summarize_and_extract plain_conversions ill_typed_services ''+1555''
                four_messages_db)) =
        [\<lparr>sum_id = 1, sum_phone = ''+1555'', sum_summary = ''x'',
          sum_message_count = SqlInteger 4, sum_timestamp = ''t5''\<rparr>]"
    by (simp add: summarize_returns summarize_final_db four_messages_count st four_messages_tables)
  have js: "json_loads ill_typed_services ill_typed_json =
      Inr (PDict [(''summary'', PStr ''x''), (''facts'', PInt 5)])"
    by (simp add: ill_typed_services_def)
  show ?thesis
    using fin js four_messages_tables(2) by (intro conjI) simp_all
qed

end
